theory Spec2Isabelle
  imports
    Complex_Main
    "HOL-Library.AList"
    "HOL-Library.Char_ord"
    "HOL-Library.List_Lexorder"
    "HOL-Library.Product_Lexorder"
begin

section \<open>The progress tracker of prompt\_training\_app.py\<close>

text \<open>
  The class \<^verbatim>\<open>UserProgressTracker\<close> keeps one dictionary \<^verbatim>\<open>self.data\<close> with the keys
  \<^verbatim>\<open>"users"\<close> and \<^verbatim>\<open>"leaderboard"\<close>. The embedding below gives that dictionary a
  record type and turns every method into a function of the dictionary.

  \<^item> Python integers are \<open>int\<close>.
  \<^item> A Python \<^verbatim>\<open>dict\<close> keeps its keys unique and in insertion order; \<open>users\<close> is an
    association list, read with \<open>map_of\<close> and written with \<open>AList.update\<close> (replace
    in place when the key exists, append otherwise).
  \<^item> A method that changes \<^verbatim>\<open>self.data\<close> returns a pair: whether it returned or raised,
    and the dictionary it leaves. The dictionary is changed in place, so what was done
    before an exception stays done; the application catches the exception and goes on
    with the same tracker.
  \<^item> The quotient \<^verbatim>\<open>total_score / attempts\<close> of two Python integers is a float. The
    division raises \<^verbatim>\<open>ZeroDivisionError\<close> on a zero divisor and \<^verbatim>\<open>OverflowError\<close> when
    the quotient leaves the range of doubles; both are branches of \<open>true_div\<close>. Where it
    returns, the float is modelled by the exact quotient in \<open>rat\<close>: double division is
    correctly rounded and 70 and 85 are doubles, so the comparisons with 70 and 85
    agree with the exact ones as long as the divisor stays below \<open>2 ^ 46\<close>.
  \<^item> Python's built-in \<^verbatim>\<open>round(x, 2)\<close> is taken as a parameter \<open>round2\<close>: every theorem
    below holds for every rounding function.
  \<^item> \<^verbatim>\<open>datetime.now().isoformat()\<close> is the parameter \<open>now\<close> of the call that reads it.
  \<^item> Writing files is left to the environment: \<^verbatim>\<open>_save_data\<close> catches every exception
    and assigns nothing in \<^verbatim>\<open>self.data\<close>, and the file that \<^verbatim>\<open>to_csv\<close> writes is
    represented by the frame written. \<^verbatim>\<open>_load_data\<close> and \<^verbatim>\<open>_save_data\<close> are modelled on
    their own, over a map from paths to contents.
\<close>

subsection \<open>Data\<close>

text \<open>
  The evaluation dictionary comes from the evaluator; the exporter reads it with
  \<^verbatim>\<open>.get(key, default)\<close>, so every key may be absent.
\<close>

record evaluation_record =
  clarity_score :: "int option"
  specificity_score :: "int option"
  structure_score :: "int option"
  task_alignment_score :: "int option"
  eval_total_score :: "int option"
  feedback :: "string option"
  strengths :: "string list option"
  improvements :: "string list option"

text \<open>
  A history entry. The exporter reads \<^verbatim>\<open>evaluation\<close> and \<^verbatim>\<open>user_prompt\<close> with
  \<^verbatim>\<open>.get\<close> (entries written by older versions lack them), the other keys by subscript.
\<close>

record attempt =
  timestamp :: string
  scenario_id :: string
  score :: int
  evaluation :: "evaluation_record option"
  user_prompt :: "string option"

record user =
  total_score :: int
  attempts :: int
  skill_level :: string
  badges :: "string list"
  history :: "attempt list"

text \<open>
  A leaderboard entry; its keys \<^verbatim>\<open>skill_level\<close> and \<^verbatim>\<open>badges\<close> are renamed, since the
  user record has fields of these names.
\<close>

record entry =
  username :: string
  avg_score :: rat
  total_attempts :: int
  entry_skill_level :: string
  entry_badges :: int

record store =
  users :: "(string \<times> user) list"
  leaderboard :: "entry list"

datatype py_error = KeyError | ZeroDivisionError | OverflowError

datatype outcome = Returned | Raised py_error

definition empty_store :: store where
  "empty_store = \<lparr>users = [], leaderboard = []\<rparr>"

subsection \<open>True division of integers\<close>

text \<open>
  The largest double is \<open>2 ^ 1024 - 2 ^ 971\<close>; a quotient whose magnitude reaches
  \<open>2 ^ 1024 - 2 ^ 970\<close> rounds to \<open>2 ^ 1024\<close>, which is no double.
\<close>

definition float_limit :: int where
  "float_limit = 2 ^ 1024 - 2 ^ 970"

definition float_overflow :: "rat \<Rightarrow> bool" where
  "float_overflow q = (of_int float_limit \<le> \<bar>q\<bar>)"

definition true_div :: "int \<Rightarrow> int \<Rightarrow> py_error + rat" where
  "true_div a b =
     (if b = 0 then Inl ZeroDivisionError
      else if float_overflow (of_int a / of_int b) then Inl OverflowError
      else Inr (of_int a / of_int b))"

subsection \<open>add\_user\<close>

definition new_user :: user where
  "new_user = \<lparr>total_score = 0, attempts = 0, skill_level = ''beginner'',
                badges = [], history = []\<rparr>"

definition add_user :: "string \<Rightarrow> store \<Rightarrow> store" where
  "add_user name d =
     (if map_of (users d) name = None
      then d\<lparr>users := AList.update name new_user (users d)\<rparr>
      else d)"

subsection \<open>\_check\_and\_award\_badges\<close>

definition startswith_a :: "string \<Rightarrow> bool" where
  "startswith_a s = (case s of [] \<Rightarrow> False | c # _ \<Rightarrow> c = CHR ''a'')"

definition award :: "bool \<Rightarrow> string \<Rightarrow> string list \<Rightarrow> string list" where
  "award cond badge bs = (if cond \<and> badge \<notin> set bs then bs @ [badge] else bs)"

text \<open>
  The badges list is appended to in place: when the average of the advanced attempts
  raises, the badges awarded before it stay.
\<close>

definition award_badges :: "user \<Rightarrow> outcome \<times> string list" where
  "award_badges u =
     (let bs1 = award (list_ex (\<lambda>h. score h = 100) (history u)) ''Perfect Score'' (badges u);
          high_scores = filter (\<lambda>h. score h > 80) (history u);
          bs2 = award (length high_scores \<ge> 3) ''Consistent Performer'' bs1;
          bs3 = award (attempts u \<ge> 10) ''Dedicated Learner'' bs2;
          advanced_attempts = filter (\<lambda>h. startswith_a (scenario_id h)) (history u)
      in if length advanced_attempts \<ge> 5
         then (case true_div (sum_list (map score advanced_attempts))
                      (int (length advanced_attempts)) of
                 Inl e \<Rightarrow> (Raised e, bs3)
               | Inr avg_advanced \<Rightarrow>
                   (Returned, award (avg_advanced > 85) ''Advanced Master'' bs3))
         else (Returned, bs3))"

definition check_and_award_badges :: "string \<Rightarrow> store \<Rightarrow> outcome \<times> store" where
  "check_and_award_badges name d =
     (case map_of (users d) name of
        None \<Rightarrow> (Raised KeyError, d)
      | Some u \<Rightarrow>
          (fst (award_badges u),
           d\<lparr>users := AList.update name (u\<lparr>badges := snd (award_badges u)\<rparr>) (users d)\<rparr>))"

subsection \<open>\_update\_leaderboard\<close>

text \<open>
  \<^verbatim>\<open>list.sort(key=..., reverse=True)\<close> is stable: entries with equal keys keep their
  order. That is the stable insertion sort \<open>sort_key\<close> on the negated key.
\<close>

definition sort_by_avg_desc :: "entry list \<Rightarrow> entry list" where
  "sort_by_avg_desc es = sort_key (\<lambda>e. - avg_score e) es"

definition leaderboard_entry :: "(rat \<Rightarrow> rat) \<Rightarrow> string \<Rightarrow> user \<Rightarrow> py_error + entry" where
  "leaderboard_entry round2 name u =
     (case (if attempts u > 0 then true_div (total_score u) (attempts u) else Inr 0) of
        Inl e \<Rightarrow> Inl e
      | Inr avg \<Rightarrow>
          Inr \<lparr>username = name, avg_score = round2 avg, total_attempts = attempts u,
               entry_skill_level = skill_level u,
               entry_badges = int (length (badges u))\<rparr>)"

definition update_leaderboard :: "(rat \<Rightarrow> rat) \<Rightarrow> string \<Rightarrow> store \<Rightarrow> outcome \<times> store" where
  "update_leaderboard round2 name d =
     (case map_of (users d) name of
        None \<Rightarrow> (Raised KeyError, d)
      | Some u \<Rightarrow>
          (case leaderboard_entry round2 name u of
             Inl e \<Rightarrow> (Raised e, d)
           | Inr new_entry \<Rightarrow>
               (Returned,
                d\<lparr>leaderboard :=
                    sort_by_avg_desc
                      (filter (\<lambda>e. username e \<noteq> name) (leaderboard d) @ [new_entry])\<rparr>)))"

subsection \<open>export\_to\_csv\<close>

text \<open>
  One row of the data frame, with the eighteen columns in the order of the source. The
  function \<open>export_to_csv\<close> returns the sorted frame that \<^verbatim>\<open>to_csv\<close> writes, or \<open>None\<close>
  where the source returns \<^verbatim>\<open>None\<close>; the text of the file is left to pandas. The rows
  are built one after the other, and the average of a row may raise.
\<close>

record row =
  row_username :: string
  row_timestamp :: string
  row_scenario_id :: string
  row_total_score :: int
  row_clarity_score :: int
  row_specificity_score :: int
  row_structure_score :: int
  row_task_alignment_score :: int
  row_skill_level :: string
  row_total_attempts :: int
  row_cumulative_score :: int
  row_avg_score :: rat
  row_badges_count :: int
  row_badges :: string
  row_user_prompt :: string
  row_strengths :: string
  row_improvements :: string
  row_feedback_summary :: string

fun join :: "string \<Rightarrow> string list \<Rightarrow> string" where
  "join sep [] = []"
| "join sep [x] = x"
| "join sep (x # y # ys) = x @ sep @ join sep (y # ys)"

definition get_default :: "'a option \<Rightarrow> 'a \<Rightarrow> 'a" where
  "get_default v dflt = (case v of None \<Rightarrow> dflt | Some x \<Rightarrow> x)"

definition empty_evaluation :: evaluation_record where
  "empty_evaluation =
     \<lparr>clarity_score = None, specificity_score = None, structure_score = None,
      task_alignment_score = None, eval_total_score = None, feedback = None,
      strengths = None, improvements = None\<rparr>"

definition feedback_summary :: "string \<Rightarrow> string" where
  "feedback_summary fb = (if length fb > 100 then take 100 fb @ ''...'' else fb)"

text \<open>The first exception of a list of results, or all their values.\<close>

fun collect :: "('e + 'a) list \<Rightarrow> 'e + 'a list" where
  "collect [] = Inr []"
| "collect (x # xs) =
     (case x of
        Inl e \<Rightarrow> Inl e
      | Inr v \<Rightarrow> (case collect xs of Inl e \<Rightarrow> Inl e | Inr vs \<Rightarrow> Inr (v # vs)))"

definition row_avg :: "(rat \<Rightarrow> rat) \<Rightarrow> user \<Rightarrow> py_error + rat" where
  "row_avg round2 data =
     (if attempts data > 0
      then (case true_div (total_score data) (attempts data) of
              Inl e \<Rightarrow> Inl e
            | Inr q \<Rightarrow> Inr (round2 q))
      else Inr 0)"

definition attempt_row :: "(rat \<Rightarrow> rat) \<Rightarrow> string \<Rightarrow> user \<Rightarrow> attempt \<Rightarrow> py_error + row" where
  "attempt_row round2 name data a =
     (let eval_data = get_default (evaluation a) empty_evaluation;
          prompt = get_default (user_prompt a) [];
          strs = get_default (strengths eval_data) [];
          imps = get_default (improvements eval_data) []
      in case row_avg round2 data of
           Inl e \<Rightarrow> Inl e
         | Inr avg \<Rightarrow>
             Inr \<lparr>row_username = name,
                  row_timestamp = timestamp a,
                  row_scenario_id = scenario_id a,
                  row_total_score = score a,
                  row_clarity_score = get_default (clarity_score eval_data) 0,
                  row_specificity_score = get_default (specificity_score eval_data) 0,
                  row_structure_score = get_default (structure_score eval_data) 0,
                  row_task_alignment_score = get_default (task_alignment_score eval_data) 0,
                  row_skill_level = skill_level data,
                  row_total_attempts = attempts data,
                  row_cumulative_score = total_score data,
                  row_avg_score = avg,
                  row_badges_count = int (length (badges data)),
                  row_badges = (if badges data \<noteq> [] then join '', '' (badges data) else []),
                  row_user_prompt = prompt,
                  row_strengths = (if strs \<noteq> [] then join ''; '' strs else []),
                  row_improvements = (if imps \<noteq> [] then join ''; '' imps else []),
                  row_feedback_summary =
                    feedback_summary (get_default (feedback eval_data) [])\<rparr>)"

definition placeholder_row :: "string \<Rightarrow> user \<Rightarrow> row" where
  "placeholder_row name data =
     \<lparr>row_username = name,
      row_timestamp = [],
      row_scenario_id = [],
      row_total_score = 0,
      row_clarity_score = 0,
      row_specificity_score = 0,
      row_structure_score = 0,
      row_task_alignment_score = 0,
      row_skill_level = skill_level data,
      row_total_attempts = attempts data,
      row_cumulative_score = total_score data,
      row_avg_score = 0,
      row_badges_count = int (length (badges data)),
      row_badges = (if badges data \<noteq> [] then join '', '' (badges data) else []),
      row_user_prompt = [],
      row_strengths = [],
      row_improvements = [],
      row_feedback_summary = ''No attempts yet''\<rparr>"

definition user_rows :: "(rat \<Rightarrow> rat) \<Rightarrow> string \<times> user \<Rightarrow> py_error + row list" where
  "user_rows round2 kv =
     (case kv of (name, data) \<Rightarrow>
        if history data \<noteq> [] then collect (map (attempt_row round2 name data) (history data))
        else Inr [placeholder_row name data])"

definition export_rows :: "(rat \<Rightarrow> rat) \<Rightarrow> store \<Rightarrow> py_error + row list" where
  "export_rows round2 d =
     (case collect (map (user_rows round2) (users d)) of
        Inl e \<Rightarrow> Inl e
      | Inr rss \<Rightarrow> Inr (concat rss))"

text \<open>
  \<^verbatim>\<open>df.sort_values(['username', 'timestamp'], na_position='last')\<close>: both columns hold
  Python strings, none of them a missing value (the empty string is not one), so the
  frame is sorted by the pair of strings; pandas sorts several keys stably. Strings
  compare character by character, a proper prefix first.
\<close>

definition sort_values :: "row list \<Rightarrow> row list" where
  "sort_values rows = sort_key (\<lambda>r. (row_username r, row_timestamp r)) rows"

definition export_to_csv :: "(rat \<Rightarrow> rat) \<Rightarrow> store \<Rightarrow> py_error + row list option" where
  "export_to_csv round2 d =
     (case export_rows round2 d of
        Inl e \<Rightarrow> Inl e
      | Inr rows \<Rightarrow> Inr (if rows \<noteq> [] then Some (sort_values rows) else None))"

text \<open>The rows of an export that returned a frame; no rows otherwise.\<close>

definition exported :: "py_error + row list option \<Rightarrow> row list" where
  "exported r = (case r of Inl e \<Rightarrow> [] | Inr None \<Rightarrow> [] | Inr (Some rows) \<Rightarrow> rows)"

definition auto_backup_to_csv :: "(rat \<Rightarrow> rat) \<Rightarrow> store \<Rightarrow> outcome" where
  "auto_backup_to_csv round2 d =
     (let total_users = int (length (users d))
      in if total_users > 0 \<and> total_users mod 5 = 0
         then (case export_to_csv round2 d of Inl e \<Rightarrow> Raised e | Inr filename \<Rightarrow> Returned)
         else Returned)"

subsection \<open>record\_attempt\<close>

text \<open>
  The steps of the method in their order; each exception ends the call with the
  dictionary as it is at that point. The last step, \<^verbatim>\<open>_save_data\<close>, neither raises nor
  changes the dictionary.
\<close>

definition update_skill_level :: "rat \<Rightarrow> user \<Rightarrow> user" where
  "update_skill_level avg u =
     (if avg \<ge> 85 \<and> attempts u \<ge> 5 then u\<lparr>skill_level := ''advanced''\<rparr>
      else if avg \<ge> 70 \<and> attempts u \<ge> 3 then u\<lparr>skill_level := ''intermediate''\<rparr>
      else u)"

definition append_attempt ::
  "string \<Rightarrow> string \<Rightarrow> int \<Rightarrow> evaluation_record \<Rightarrow> string \<Rightarrow> user \<Rightarrow> user" where
  "append_attempt now sid sc ev prompt u =
     u\<lparr>attempts := attempts u + 1,
       total_score := total_score u + sc,
       history := history u @
         [\<lparr>timestamp = now, scenario_id = sid, score = sc,
           evaluation = Some ev, user_prompt = Some prompt\<rparr>]\<rparr>"

definition record_attempt ::
  "(rat \<Rightarrow> rat) \<Rightarrow> string \<Rightarrow> string \<Rightarrow> string \<Rightarrow> int \<Rightarrow> evaluation_record \<Rightarrow> string
     \<Rightarrow> store \<Rightarrow> outcome \<times> store" where
  "record_attempt round2 now name sid sc ev prompt d =
     (let d1 = (if map_of (users d) name = None then add_user name d else d)
      in case map_of (users d1) name of
           None \<Rightarrow> (Raised KeyError, d1)
         | Some u \<Rightarrow>
             (let u1 = append_attempt now sid sc ev prompt u;
                  d2 = d1\<lparr>users := AList.update name u1 (users d1)\<rparr>
              in case true_div (total_score u1) (attempts u1) of
                   Inl e \<Rightarrow> (Raised e, d2)
                 | Inr avg \<Rightarrow>
                     (let d3 = d2\<lparr>users :=
                                 AList.update name (update_skill_level avg u1) (users d2)\<rparr>;
                          badges_result = check_and_award_badges name d3
                      in if fst badges_result \<noteq> Returned then badges_result
                         else
                           (let leaderboard_result =
                                  update_leaderboard round2 name (snd badges_result)
                            in if fst leaderboard_result \<noteq> Returned then leaderboard_result
                               else (auto_backup_to_csv round2 (snd leaderboard_result),
                                     snd leaderboard_result)))))"

subsection \<open>Sequences of calls\<close>

text \<open>
  The calls of a session, each run on the dictionary the one before left, whether that
  one returned or raised; the result lists what each call did.
\<close>

datatype call =
  AddUser string
| RecordAttempt string string string int evaluation_record string

fun run_call :: "(rat \<Rightarrow> rat) \<Rightarrow> call \<Rightarrow> store \<Rightarrow> outcome \<times> store" where
  "run_call round2 (AddUser name) d = (Returned, add_user name d)"
| "run_call round2 (RecordAttempt now name sid sc ev prompt) d =
     record_attempt round2 now name sid sc ev prompt d"

fun run_calls :: "(rat \<Rightarrow> rat) \<Rightarrow> call list \<Rightarrow> store \<Rightarrow> outcome list \<times> store" where
  "run_calls round2 [] d = ([], d)"
| "run_calls round2 (c # cs) d =
     (let r = run_call round2 c d; rs = run_calls round2 cs (snd r)
      in (fst r # fst rs, snd rs))"

definition all_returned :: "outcome list \<Rightarrow> bool" where
  "all_returned outs = list_all (\<lambda>out. out = Returned) outs"

text \<open>
  A concrete rounding to two decimals, half to even on the exact value, used where a
  theorem is evaluated at a concrete input.
\<close>

definition round_half_even :: "rat \<Rightarrow> int" where
  "round_half_even q =
     (let f = \<lfloor>q\<rfloor>; r = q - of_int f
      in if r < 1 / 2 then f else if r > 1 / 2 then f + 1
         else if even f then f else f + 1)"

definition py_round2 :: "rat \<Rightarrow> rat" where
  "py_round2 q = of_int (round_half_even (q * 100)) / 100"

subsection \<open>get\_user\_stats\<close>

definition get_user_stats :: "string \<Rightarrow> store \<Rightarrow> user option" where
  "get_user_stats name d = map_of (users d) name"

subsection \<open>\_load\_data and \_save\_data\<close>

text \<open>
  What \<^verbatim>\<open>json.load\<close> returns and \<^verbatim>\<open>json.dump\<close> takes: a JSON value. The two functions
  of Python's library are parameters, \<open>json_load\<close> from the text of a file to the
  outcome of reading it, and \<open>json_dump\<close> from a value to its text. The file system is a
  map from paths to contents.
\<close>

datatype json =
  JNull
| JBool bool
| JInt int
| JFloat rat
| JStr string
| JArr "json list"
| JObj "(string \<times> json) list"

datatype load_result = JSONDecodeError | OtherException | Loaded json

type_synonym files = "string \<rightharpoonup> string"

definition fresh_data :: json where
  "fresh_data = JObj [(''users'', JObj []), (''leaderboard'', JArr [])]"

definition valid_structure :: "json \<Rightarrow> bool" where
  "valid_structure data =
     (case data of
        JObj kvs \<Rightarrow> map_of kvs ''users'' \<noteq> None \<and> map_of kvs ''leaderboard'' \<noteq> None
      | _ \<Rightarrow> False)"

definition backup_name :: "string \<Rightarrow> string \<Rightarrow> string" where
  "backup_name storage_file stamp = storage_file @ ''.backup_'' @ stamp"

text \<open>
  \<open>stamp\<close> is \<^verbatim>\<open>datetime.now().strftime('%Y%m%d_%H%M%S')\<close> and \<open>copy_ok\<close> tells whether
  \<^verbatim>\<open>shutil.copy2\<close> returns; when it raises, the source prints a message and goes on.
  The result is the dictionary returned and the file system left behind.
\<close>

definition load_data ::
  "(string \<Rightarrow> load_result) \<Rightarrow> string \<Rightarrow> bool \<Rightarrow> string \<Rightarrow> files \<Rightarrow> json \<times> files" where
  "load_data json_load stamp copy_ok storage_file fs =
     (case fs storage_file of
        None \<Rightarrow> (fresh_data, fs)
      | Some text \<Rightarrow>
          (case json_load text of
             Loaded data \<Rightarrow>
               if \<not> valid_structure data then (fresh_data, fs) else (data, fs)
           | JSONDecodeError \<Rightarrow>
               (fresh_data,
                if copy_ok then fs(backup_name storage_file stamp \<mapsto> text) else fs)
           | OtherException \<Rightarrow> (fresh_data, fs)))"











subsection \<open>Notions used in the proofs\<close>

text \<open>
  The record \<^verbatim>\<open>record_attempt\<close> works on: the stored one, or the one \<^verbatim>\<open>add_user\<close>
  creates when the name is new.
\<close>

definition stored_user :: "store \<Rightarrow> string \<Rightarrow> user" where
  "stored_user d name = (case map_of (users d) name of None \<Rightarrow> new_user | Some u \<Rightarrow> u)"

text \<open>The history entry that \<^verbatim>\<open>record_attempt\<close> appends.\<close>

definition new_attempt :: "string \<Rightarrow> string \<Rightarrow> int \<Rightarrow> evaluation_record \<Rightarrow> string \<Rightarrow> attempt" where
  "new_attempt now sid sc ev prompt =
     \<lparr>timestamp = now, scenario_id = sid, score = sc,
      evaluation = Some ev, user_prompt = Some prompt\<rparr>"

definition totals_ok :: "user \<Rightarrow> bool" where
  "totals_ok u =
     (total_score u = sum_list (map score (history u)) \<and>
      attempts u = int (length (history u)))"

definition users_ok :: "store \<Rightarrow> bool" where
  "users_ok d = list_all (\<lambda>kv. totals_ok (snd kv)) (users d)"

text \<open>Scores whose averages are doubles.\<close>

definition in_float_range :: "int \<Rightarrow> bool" where
  "in_float_range sc = (\<bar>sc\<bar> < float_limit)"

definition scores_in_range :: "user \<Rightarrow> bool" where
  "scores_in_range u = list_all (\<lambda>h. in_float_range (score h)) (history u)"

definition range_ok :: "store \<Rightarrow> bool" where
  "range_ok d = list_all (\<lambda>kv. scores_in_range (snd kv)) (users d)"

definition call_in_range :: "call \<Rightarrow> bool" where
  "call_in_range c =
     (case c of AddUser name \<Rightarrow> True
      | RecordAttempt now name sid sc ev prompt \<Rightarrow> in_float_range sc)"

text \<open>
  Attempts with a timestamp, as \<^verbatim>\<open>record_attempt\<close> writes them: the ISO text of a clock
  reading is not empty.
\<close>

definition timestamps_present :: "user \<Rightarrow> bool" where
  "timestamps_present u = list_all (\<lambda>a. timestamp a \<noteq> []) (history u)"

definition store_timestamps_present :: "store \<Rightarrow> bool" where
  "store_timestamps_present d = list_all (\<lambda>kv. timestamps_present (snd kv)) (users d)"

definition clock_present :: "call \<Rightarrow> bool" where
  "clock_present c =
     (case c of AddUser name \<Rightarrow> True
      | RecordAttempt now name sid sc ev prompt \<Rightarrow> now \<noteq> [])"

definition active_names :: "store \<Rightarrow> string set" where
  "active_names d = {n. \<exists>u. map_of (users d) n = Some u \<and> history u \<noteq> []}"

definition leaderboard_ok :: "store \<Rightarrow> bool" where
  "leaderboard_ok d =
     (distinct (map username (leaderboard d)) \<and>
      set (map username (leaderboard d)) = active_names d)"

definition level_kept :: "string \<Rightarrow> string \<Rightarrow> bool" where
  "level_kept old new = (new = old \<or> new = ''advanced'' \<or> new = ''intermediate'')"

subsection \<open>Concrete inputs\<close>

definition sample_evaluation :: evaluation_record where
  "sample_evaluation =
     \<lparr>clarity_score = Some 20, specificity_score = Some 20, structure_score = Some 20,
      task_alignment_score = Some 20, eval_total_score = Some 80,
      feedback = Some ''Good prompt'', strengths = Some [''Clear goal''],
      improvements = Some [''Add context'']\<rparr>"

definition scenario_a :: "call list" where
  "scenario_a =
     [RecordAttempt ''2026-01-01T10:00:00'' ''alice'' ''b1'' 100 sample_evaluation ''p1'',
      RecordAttempt ''2026-01-01T10:05:00'' ''alice'' ''i1'' 90 sample_evaluation ''p2'',
      RecordAttempt ''2026-01-01T10:10:00'' ''alice'' ''a1'' 95 sample_evaluation ''p3'']"

definition scenario_b_attempt :: "string \<times> string \<Rightarrow> attempt" where
  "scenario_b_attempt ts =
     \<lparr>timestamp = fst ts, scenario_id = snd ts, score = 90,
      evaluation = Some sample_evaluation, user_prompt = Some ''p''\<rparr>"

definition scenario_b_times :: "(string \<times> string) list" where
  "scenario_b_times =
     [(''2026-01-02T09:00:00'', ''a1''), (''2026-01-02T09:01:00'', ''a2''),
      (''2026-01-02T09:02:00'', ''a3''), (''2026-01-02T09:03:00'', ''a4''),
      (''2026-01-02T09:04:00'', ''a5'')]"

definition scenario_b :: "call list" where
  "scenario_b =
     map (\<lambda>ts. RecordAttempt (fst ts) ''bob'' (snd ts) 90 sample_evaluation ''p'')
       scenario_b_times"

definition scenario_b_user :: user where
  "scenario_b_user =
     \<lparr>total_score = 450, attempts = 5, skill_level = ''advanced'',
      badges = [''Consistent Performer'', ''Advanced Master''],
      history = map scenario_b_attempt scenario_b_times\<rparr>"

definition scenario_b_store :: store where
  "scenario_b_store =
     \<lparr>users = [(''bob'', scenario_b_user)],
      leaderboard =
        [\<lparr>username = ''bob'', avg_score = 90, total_attempts = 5,
          entry_skill_level = ''advanced'', entry_badges = 2\<rparr>]\<rparr>"

text \<open>A score whose average is no double.\<close>

definition huge_score :: int where
  "huge_score = 2 ^ 1024"

definition low_attempt :: call where
  "low_attempt = RecordAttempt ''2026-01-02T09:05:00'' ''bob'' ''b1'' 40 sample_evaluation ''p''"

definition tied_user :: user where
  "tied_user =
     \<lparr>total_score = 80, attempts = 1, skill_level = ''beginner'', badges = [],
      history =
        [\<lparr>timestamp = ''2026-01-04T08:00:00'', scenario_id = ''b1'', score = 80,
          evaluation = Some sample_evaluation, user_prompt = Some ''p''\<rparr>]\<rparr>"

text \<open>
  Scenario D before the leaderboard is refreshed for \<open>y\<close>: both users average 80 and
  only \<open>x\<close> has an entry.
\<close>

definition tied_store :: store where
  "tied_store =
     \<lparr>users = [(''x'', tied_user), (''y'', tied_user)],
      leaderboard =
        [\<lparr>username = ''x'', avg_score = 80, total_attempts = 1,
          entry_skill_level = ''beginner'', entry_badges = 0\<rparr>]\<rparr>"

text \<open>A session with a user that records nothing.\<close>

definition session_with_idle_user :: "call list" where
  "session_with_idle_user = AddUser ''bob'' # scenario_a"

text \<open>
  The text \<^verbatim>\<open>json.dump(..., indent=2)\<close> writes for the fresh dictionary, and
  \<^verbatim>\<open>json.load\<close> on the three texts used below: that one, the empty object \<^verbatim>\<open>{}\<close>, and
  a text that is no JSON. \<open>json_dump_fresh\<close> is \<^verbatim>\<open>json.dump\<close> at the fresh dictionary,
  the only value it is applied to.
\<close>

definition fresh_text :: string where
  "fresh_text =
     concat [''{'', [CHR 0x0A], ''  '', [CHR 0x22], ''users'', [CHR 0x22], '': {},'',
             [CHR 0x0A], ''  '', [CHR 0x22], ''leaderboard'', [CHR 0x22], '': []'',
             [CHR 0x0A], ''}'']"

definition json_load_sample :: "string \<Rightarrow> load_result" where
  "json_load_sample text =
     (if text = fresh_text then Loaded fresh_data
      else if text = ''{}'' then Loaded (JObj [])
      else JSONDecodeError)"


section \<open>Properties\<close>

subsection \<open>What the calls do to the dictionary\<close>

lemma map_of_add_user:
  "map_of (users (add_user name d)) = (map_of (users d))(name \<mapsto> stored_user d name)"
  by (auto simp: add_user_def stored_user_def update_conv' fun_eq_iff)

lemma leaderboard_add_user: "leaderboard (add_user name d) = leaderboard d"
  by (simp add: add_user_def)

lemma ensure_user:
  fixes d name
  defines "d1 \<equiv> (if map_of (users d) name = None then add_user name d else d)"
  shows "map_of (users d1) name = Some (stored_user d name)"
    and "AList.update name y (users d1) = AList.update name y (users d)"
    and "leaderboard d1 = leaderboard d"
  by (auto simp: d1_def add_user_def stored_user_def update_conv')

lemma users_update_leaderboard: "users (snd (update_leaderboard round2 name d)) = users d"
  by (simp add: update_leaderboard_def split: option.splits sum.splits)

lemma check_and_award_badges_found:
  "map_of (users d) name = Some u \<Longrightarrow>
   check_and_award_badges name d =
     (fst (award_badges u),
      d\<lparr>users := AList.update name (u\<lparr>badges := snd (award_badges u)\<rparr>) (users d)\<rparr>)"
  by (simp add: check_and_award_badges_def)

lemma update_leaderboard_found:
  "map_of (users d) name = Some u \<Longrightarrow>
   update_leaderboard round2 name d =
     (case leaderboard_entry round2 name u of
        Inl e \<Rightarrow> (Raised e, d)
      | Inr new_entry \<Rightarrow>
          (Returned,
           d\<lparr>leaderboard :=
               sort_by_avg_desc
                 (filter (\<lambda>e. username e \<noteq> name) (leaderboard d) @ [new_entry])\<rparr>))"
  by (simp add: update_leaderboard_def)

text \<open>The four ways through \<open>record_attempt\<close>.\<close>

lemma record_attempt_cases:
  fixes round2 now name sid sc ev prompt d
  defines "u1 \<equiv> append_attempt now sid sc ev prompt (stored_user d name)"
  obtains
    (Division) e where
      "true_div (total_score u1) (attempts u1) = Inl e"
      "record_attempt round2 now name sid sc ev prompt d
         = (Raised e, d\<lparr>users := AList.update name u1 (users d)\<rparr>)"
  | (Badges) avg e x where
      "true_div (total_score u1) (attempts u1) = Inr avg"
      "x = (update_skill_level avg u1)\<lparr>badges := snd (award_badges (update_skill_level avg u1))\<rparr>"
      "fst (award_badges (update_skill_level avg u1)) = Raised e"
      "record_attempt round2 now name sid sc ev prompt d
         = (Raised e, d\<lparr>users := AList.update name x (users d)\<rparr>)"
  | (Entry) avg e x where
      "true_div (total_score u1) (attempts u1) = Inr avg"
      "x = (update_skill_level avg u1)\<lparr>badges := snd (award_badges (update_skill_level avg u1))\<rparr>"
      "fst (award_badges (update_skill_level avg u1)) = Returned"
      "leaderboard_entry round2 name x = Inl e"
      "record_attempt round2 now name sid sc ev prompt d
         = (Raised e, d\<lparr>users := AList.update name x (users d)\<rparr>)"
  | (Done) avg x new_entry d' where
      "true_div (total_score u1) (attempts u1) = Inr avg"
      "x = (update_skill_level avg u1)\<lparr>badges := snd (award_badges (update_skill_level avg u1))\<rparr>"
      "fst (award_badges (update_skill_level avg u1)) = Returned"
      "leaderboard_entry round2 name x = Inr new_entry"
      "d' = \<lparr>users = AList.update name x (users d),
             leaderboard = sort_by_avg_desc
               (filter (\<lambda>e. username e \<noteq> name) (leaderboard d) @ [new_entry])\<rparr>"
      "record_attempt round2 now name sid sc ev prompt d = (auto_backup_to_csv round2 d', d')"
proof -
  define d1 where "d1 = (if map_of (users d) name = None then add_user name d else d)"
  have s: "map_of (users d1) name = Some (stored_user d name)"
    and up: "\<And>y. AList.update name y (users d1) = AList.update name y (users d)"
    and lb: "leaderboard d1 = leaderboard d"
    unfolding d1_def by (rule ensure_user)+
  have eq: "d1\<lparr>users := ys\<rparr> = d\<lparr>users := ys\<rparr>" for ys
    using lb by (cases d1, cases d) simp
  show ?thesis
  proof (cases "true_div (total_score u1) (attempts u1)")
    case (Inl e)
    then have "record_attempt round2 now name sid sc ev prompt d
         = (Raised e, d\<lparr>users := AList.update name u1 (users d)\<rparr>)"
      using s by (simp add: record_attempt_def d1_def [symmetric] Let_def u1_def up eq)
    with Inl show ?thesis by (rule Division)
  next
    case (Inr avg)
    define v where "v = update_skill_level avg u1"
    define x where "x = v\<lparr>badges := snd (award_badges v)\<rparr>"
    define d3 where "d3 = d\<lparr>users := AList.update name v (users d)\<rparr>"
    define dx where "dx = d\<lparr>users := AList.update name x (users d)\<rparr>"
    have d3: "map_of (users d3) name = Some v" by (simp add: d3_def update_conv')
    have cb: "check_and_award_badges name d3 = (fst (award_badges v), dx)"
      using check_and_award_badges_found [OF d3] by (simp add: dx_def x_def d3_def)
    have dxl: "map_of (users dx) name = Some x" by (simp add: dx_def update_conv')
    have ra: "record_attempt round2 now name sid sc ev prompt d =
        (if fst (award_badges v) \<noteq> Returned then (fst (award_badges v), dx)
         else (let r = update_leaderboard round2 name dx
               in if fst r \<noteq> Returned then r else (auto_backup_to_csv round2 (snd r), snd r)))"
      using s Inr
      by (simp add: record_attempt_def d1_def [symmetric] Let_def u1_def [symmetric] up eq
          v_def [symmetric] d3_def [symmetric] cb)
    show ?thesis
    proof (cases "fst (award_badges v)")
      case (Raised e)
      then have "record_attempt round2 now name sid sc ev prompt d = (Raised e, dx)"
        by (simp add: ra)
      with Inr Raised show ?thesis
        by (intro Badges [of avg x e]) (simp_all add: x_def v_def dx_def)
    next
      case Returned
      show ?thesis
      proof (cases "leaderboard_entry round2 name x")
        case (Inl e)
        then have "record_attempt round2 now name sid sc ev prompt d = (Raised e, dx)"
          by (simp add: ra Returned update_leaderboard_found [OF dxl])
        with Inr Returned Inl show ?thesis
          by (intro Entry [of avg x e]) (simp_all add: x_def v_def dx_def)
      next
        case new: (Inr new_entry)
        define d' where "d' = \<lparr>users = AList.update name x (users d),
             leaderboard = sort_by_avg_desc
               (filter (\<lambda>e. username e \<noteq> name) (leaderboard d) @ [new_entry])\<rparr>"
        have "update_leaderboard round2 name dx = (Returned, d')"
          using update_leaderboard_found [OF dxl, of round2] by (simp add: new d'_def dx_def)
        then have "record_attempt round2 now name sid sc ev prompt d
            = (auto_backup_to_csv round2 d', d')"
          by (simp add: ra Returned)
        with Inr Returned new show ?thesis
          by (intro Done [of avg x new_entry d']) (simp_all add: x_def v_def d'_def)
      qed
    qed
  qed
qed

lemma level_kept_refl: "level_kept a a"
  by (simp add: level_kept_def)

lemma level_kept_trans: "level_kept a b \<Longrightarrow> level_kept b c \<Longrightarrow> level_kept a c"
  by (auto simp: level_kept_def)

lemma level_kept_update_skill_level:
  "level_kept (skill_level u) (skill_level (update_skill_level avg u))"
  by (simp add: update_skill_level_def level_kept_def)

lemma counters_update_skill_level:
  "history (update_skill_level avg u) = history u"
  "total_score (update_skill_level avg u) = total_score u"
  "attempts (update_skill_level avg u) = attempts u"
  "badges (update_skill_level avg u) = badges u"
  by (simp_all add: update_skill_level_def)

lemma counters_append_attempt:
  "history (append_attempt now sid sc ev prompt u) = history u @ [new_attempt now sid sc ev prompt]"
  "total_score (append_attempt now sid sc ev prompt u) = total_score u + sc"
  "attempts (append_attempt now sid sc ev prompt u) = attempts u + 1"
  "skill_level (append_attempt now sid sc ev prompt u) = skill_level u"
  "badges (append_attempt now sid sc ev prompt u) = badges u"
  by (simp_all add: append_attempt_def new_attempt_def)

text \<open>Whatever the outcome, the call has put the attempt into the user's record.\<close>

lemma record_attempt_users:
  "\<exists>x. users (snd (record_attempt round2 now name sid sc ev prompt d))
          = AList.update name x (users d) \<and>
       history x = history (stored_user d name) @ [new_attempt now sid sc ev prompt] \<and>
       total_score x = total_score (stored_user d name) + sc \<and>
       attempts x = attempts (stored_user d name) + 1 \<and>
       level_kept (skill_level (stored_user d name)) (skill_level x)"
proof (cases rule: record_attempt_cases [of now sid sc ev prompt d name round2])
  case (Division e)
  then show ?thesis
    by (intro exI [of _ "append_attempt now sid sc ev prompt (stored_user d name)"])
      (simp add: counters_append_attempt level_kept_refl)
next
  case (Badges avg e x)
  then show ?thesis
    by (intro exI [of _ x])
      (simp add: counters_append_attempt counters_update_skill_level
        level_kept_update_skill_level [of "append_attempt now sid sc ev prompt (stored_user d name)",
          unfolded counters_append_attempt])
next
  case (Entry avg e x)
  then show ?thesis
    by (intro exI [of _ x])
      (simp add: counters_append_attempt counters_update_skill_level
        level_kept_update_skill_level [of "append_attempt now sid sc ev prompt (stored_user d name)",
          unfolded counters_append_attempt])
next
  case (Done avg x new_entry d')
  then show ?thesis
    by (intro exI [of _ x])
      (simp add: counters_append_attempt counters_update_skill_level
        level_kept_update_skill_level [of "append_attempt now sid sc ev prompt (stored_user d name)",
          unfolded counters_append_attempt])
qed

lemma username_leaderboard_entry:
  "leaderboard_entry round2 name u = Inr e \<Longrightarrow> username e = name"
  by (auto simp: leaderboard_entry_def split: sum.splits if_splits)

text \<open>A call that returns has refreshed the user's entry.\<close>

lemma record_attempt_returned:
  assumes "fst (record_attempt round2 now name sid sc ev prompt d) = Returned"
  shows "\<exists>x e. snd (record_attempt round2 now name sid sc ev prompt d)
            = \<lparr>users = AList.update name x (users d),
               leaderboard = sort_by_avg_desc
                 (filter (\<lambda>e. username e \<noteq> name) (leaderboard d) @ [e])\<rparr> \<and>
          username e = name \<and> history x \<noteq> []"
proof (cases rule: record_attempt_cases [of now sid sc ev prompt d name round2])
  case (Division e)
  with assms show ?thesis by simp
next
  case (Badges avg e x)
  with assms show ?thesis by simp
next
  case (Entry avg e x)
  with assms show ?thesis by simp
next
  case (Done avg x new_entry d')
  have "history x \<noteq> []"
    by (simp add: Done(2) counters_append_attempt counters_update_skill_level)
  moreover have "username new_entry = name"
    using Done(4) by (rule username_leaderboard_entry)
  ultimately show ?thesis
    by (intro exI [of _ x] exI [of _ new_entry]) (simp add: Done(6) Done(5))
qed

subsection \<open>Totals and history\<close>

lemma totals_ok_new_user: "totals_ok new_user"
  by (simp add: totals_ok_def new_user_def)

lemma users_ok_lookup: "users_ok d \<Longrightarrow> map_of (users d) name = Some u \<Longrightarrow> totals_ok u"
  using map_of_SomeD [of "users d" name u] by (fastforce simp: users_ok_def list_all_iff)

lemma totals_ok_stored_user: "users_ok d \<Longrightarrow> totals_ok (stored_user d name)"
  by (auto simp: stored_user_def totals_ok_new_user users_ok_lookup split: option.splits)

lemma list_all_update:
  "list_all (\<lambda>kv. P (snd kv)) al \<Longrightarrow> P v \<Longrightarrow>
   list_all (\<lambda>kv. P (snd kv)) (AList.update k v al)"
  by (induction al) auto

lemma users_ok_add_user: "users_ok d \<Longrightarrow> users_ok (add_user name d)"
  by (simp add: users_ok_def add_user_def list_all_update totals_ok_new_user)

lemma users_ok_record_attempt:
  assumes "users_ok d"
  shows "users_ok (snd (record_attempt round2 now name sid sc ev prompt d))"
proof -
  obtain x where x: "users (snd (record_attempt round2 now name sid sc ev prompt d))
          = AList.update name x (users d)"
      "history x = history (stored_user d name) @ [new_attempt now sid sc ev prompt]"
      "total_score x = total_score (stored_user d name) + sc"
      "attempts x = attempts (stored_user d name) + 1"
    using record_attempt_users [of round2 now name sid sc ev prompt d] by blast
  have "totals_ok x"
    using totals_ok_stored_user [OF assms, of name]
    by (simp add: totals_ok_def x new_attempt_def)
  with assms show ?thesis
    by (simp add: users_ok_def x(1) list_all_update)
qed

lemma users_ok_run_call: "users_ok d \<Longrightarrow> users_ok (snd (run_call round2 c d))"
  by (cases c) (simp_all add: users_ok_add_user users_ok_record_attempt)

lemma users_ok_run_calls: "users_ok d \<Longrightarrow> users_ok (snd (run_calls round2 cs d))"
  by (induction cs arbitrary: d) (simp_all add: Let_def users_ok_run_call)

lemma users_ok_empty_store: "users_ok empty_store"
  by (simp add: users_ok_def empty_store_def)

text \<open>
  C6. After every sequence of \<^verbatim>\<open>add_user\<close> and \<^verbatim>\<open>record_attempt\<close> calls on the empty
  store, whether the calls returned or raised, every user's \<open>total_score\<close> is the sum of
  the scores in that user's history and \<open>attempts\<close> is the length of the history.
\<close>

theorem totals_match_history:
  "get_user_stats name (snd (run_calls round2 cs empty_store)) = Some u \<longrightarrow>
     total_score u = sum_list (map score (history u)) \<and>
     attempts u = int (length (history u))"
  using users_ok_lookup [OF users_ok_run_calls [OF users_ok_empty_store], of round2 cs name u]
  by (simp add: get_user_stats_def totals_ok_def)

lemma scenario_a_stats:
  "get_user_stats ''alice'' (snd (run_calls py_round2 scenario_a empty_store)) =
     Some \<lparr>total_score = 285, attempts = 3, skill_level = ''intermediate'',
           badges = [''Perfect Score'', ''Consistent Performer''],
           history =
             [new_attempt ''2026-01-01T10:00:00'' ''b1'' 100 sample_evaluation ''p1'',
              new_attempt ''2026-01-01T10:05:00'' ''i1'' 90 sample_evaluation ''p2'',
              new_attempt ''2026-01-01T10:10:00'' ''a1'' 95 sample_evaluation ''p3'']\<rparr>"
  by code_simp

theorem totals_match_history_witness:
  "map_option
     (\<lambda>u. (total_score u, sum_list (map score (history u)), attempts u,
           int (length (history u))))
     (get_user_stats ''alice'' (snd (run_calls py_round2 scenario_a empty_store)))
   = Some (285, 285, 3, 3)"
  using scenario_a_stats
    totals_match_history [of "''alice''" py_round2 scenario_a
      "the (get_user_stats ''alice'' (snd (run_calls py_round2 scenario_a empty_store)))"]
  by (simp add: new_attempt_def)

subsection \<open>No validation of the score\<close>

text \<open>
  C10. \<^verbatim>\<open>record_attempt\<close> does not check the range of the score: for every store and
  every integer \<open>sc\<close> (negative and above 100 included), the call leaves the user with
  the attempt holding \<open>sc\<close> itself appended to the history and with \<open>sc\<close> added to
  \<open>total_score\<close>. That is so even when the call raises at the average: the record is
  changed before the division.
\<close>

theorem no_score_validation:
  "map_option (\<lambda>u. (history u, total_score u))
     (get_user_stats name (snd (record_attempt round2 now name sid sc ev prompt d)))
   = Some (history (stored_user d name) @
             [\<lparr>timestamp = now, scenario_id = sid, score = sc,
               evaluation = Some ev, user_prompt = Some prompt\<rparr>],
           total_score (stored_user d name) + sc)"
  using record_attempt_users [of round2 now name sid sc ev prompt d]
  by (auto simp: get_user_stats_def update_conv' new_attempt_def)

theorem no_score_validation_witness:
  "map_option (\<lambda>u. (map score (history u), total_score u))
     (get_user_stats ''bob''
        (snd (record_attempt py_round2 ''2026-01-03T09:00:00'' ''bob'' ''b1'' (- 5)
                sample_evaluation ''p'' scenario_b_store)))
   = Some ([90, 90, 90, 90, 90, - 5], 445)"
proof -
  have s: "stored_user scenario_b_store ''bob'' = scenario_b_user"
    by (simp add: stored_user_def scenario_b_store_def)
  have m: "map score (history scenario_b_user) = [90, 90, 90, 90, 90]"
    by (simp add: scenario_b_user_def scenario_b_times_def scenario_b_attempt_def)
  have t: "total_score scenario_b_user = 450"
    by (simp add: scenario_b_user_def)
  show ?thesis
    using no_score_validation [of "''bob''" py_round2 "''2026-01-03T09:00:00''" "''b1''"
        "- 5" sample_evaluation "''p''" scenario_b_store]
    by (auto simp: s m t)
qed

text \<open>A score beyond the doubles is recorded as well, and the call raises.\<close>

lemma huge_score_recorded:
  "fst (record_attempt py_round2 ''2026-01-03T09:00:00'' ''carol'' ''b1'' huge_score
          sample_evaluation ''p'' empty_store) = Raised OverflowError \<and>
   map_option (\<lambda>u. (map score (history u), total_score u))
     (get_user_stats ''carol''
        (snd (record_attempt py_round2 ''2026-01-03T09:00:00'' ''carol'' ''b1'' huge_score
                sample_evaluation ''p'' empty_store)))
   = Some ([huge_score], huge_score)"
  by code_simp

subsection \<open>The skill level never goes back to beginner\<close>

lemma level_kept_record_attempt:
  assumes "map_of (users d) n = Some u"
  shows "\<exists>u'. map_of (users (snd (record_attempt round2 now name sid sc ev prompt d))) n = Some u' \<and>
           level_kept (skill_level u) (skill_level u')"
proof -
  obtain x where x: "users (snd (record_attempt round2 now name sid sc ev prompt d))
          = AList.update name x (users d)"
      "level_kept (skill_level (stored_user d name)) (skill_level x)"
    using record_attempt_users [of round2 now name sid sc ev prompt d] by blast
  show ?thesis
  proof (cases "n = name")
    case True
    then have "stored_user d name = u" using assms by (simp add: stored_user_def)
    with x True show ?thesis by (simp add: update_conv')
  next
    case False
    with assms show ?thesis by (simp add: x(1) update_conv' level_kept_refl)
  qed
qed

lemma lookup_add_user:
  assumes "map_of (users d) n = Some u"
  shows "map_of (users (add_user name d)) n = Some u"
  using assms by (auto simp: map_of_add_user stored_user_def)

lemma level_kept_run_call:
  assumes "map_of (users d) n = Some u"
  shows "\<exists>u'. map_of (users (snd (run_call round2 c d))) n = Some u' \<and>
           level_kept (skill_level u) (skill_level u')"
proof (cases c)
  case (AddUser name)
  then show ?thesis using lookup_add_user [OF assms, of name]
    by (auto simp: level_kept_refl)
next
  case (RecordAttempt now name sid sc ev prompt)
  then show ?thesis using level_kept_record_attempt [OF assms] by simp
qed

lemma level_kept_run_calls:
  assumes "map_of (users d) n = Some u"
  shows "\<exists>u'. map_of (users (snd (run_calls round2 cs d))) n = Some u' \<and>
           level_kept (skill_level u) (skill_level u')"
  using assms
proof (induction cs arbitrary: d u)
  case Nil
  then show ?case by (auto simp: level_kept_refl)
next
  case (Cons c cs)
  from level_kept_run_call [OF Cons.prems, of round2 c]
  obtain u1 where u1: "map_of (users (snd (run_call round2 c d))) n = Some u1"
      "level_kept (skill_level u) (skill_level u1)"
    by blast
  from Cons.IH [OF u1(1)]
  obtain u' where "map_of (users (snd (run_calls round2 cs (snd (run_call round2 c d))))) n = Some u'"
      "level_kept (skill_level u1) (skill_level u')"
    by blast
  with u1(2) show ?case by (auto simp: Let_def intro: level_kept_trans)
qed

lemma scenario_b_run:
  "run_calls py_round2 scenario_b empty_store
     = ([Returned, Returned, Returned, Returned, Returned], scenario_b_store)"
  by code_simp

lemma low_attempt_run:
  "map_option skill_level
     (get_user_stats ''bob'' (snd (run_calls py_round2 [low_attempt] scenario_b_store)))
   = Some ''intermediate''"
  by code_simp

text \<open>
  C9. Take any store, any user \<open>n\<close> in it and any sequence of calls. The user is still
  there afterwards, and the level is the old one, \<open>advanced\<close> or \<open>intermediate\<close>: the
  calls assign nothing else. So a level that is \<open>intermediate\<close> or \<open>advanced\<close> stays one
  of the two, and the only step down is from \<open>advanced\<close> to \<open>intermediate\<close>.
\<close>

theorem skill_level_never_back_to_beginner:
  "get_user_stats n d = Some u \<longrightarrow>
     (\<exists>u'. get_user_stats n (snd (run_calls round2 cs d)) = Some u' \<and>
        (skill_level u' = skill_level u \<or> skill_level u' = ''advanced'' \<or>
         skill_level u' = ''intermediate'') \<and>
        (skill_level u = ''intermediate'' \<or> skill_level u = ''advanced'' \<longrightarrow>
           skill_level u' = ''intermediate'' \<or> skill_level u' = ''advanced''))"
  using level_kept_run_calls [of d n u round2 cs]
  by (auto simp: level_kept_def get_user_stats_def)

theorem skill_level_never_back_to_beginner_witness:
  "get_user_stats ''bob'' scenario_b_store = Some scenario_b_user \<and>
   skill_level scenario_b_user = ''advanced'' \<and>
   map_option skill_level
     (get_user_stats ''bob'' (snd (run_calls py_round2 [low_attempt] scenario_b_store)))
   = Some ''intermediate''"
proof -
  have a: "get_user_stats ''bob'' scenario_b_store = Some scenario_b_user"
    by (simp add: get_user_stats_def scenario_b_store_def)
  have b: "skill_level scenario_b_user = ''advanced''"
    by (simp add: scenario_b_user_def)
  show ?thesis
    using a b low_attempt_run
      skill_level_never_back_to_beginner
        [of "''bob''" scenario_b_store scenario_b_user py_round2 "[low_attempt]"]
    by simp
qed

subsection \<open>Calls that return\<close>

lemma float_limit_pos: "0 < float_limit"
  by (simp add: float_limit_def)

lemma sum_in_range:
  "xs \<noteq> [] \<Longrightarrow> list_all in_float_range xs \<Longrightarrow> \<bar>sum_list xs\<bar> < int (length xs) * float_limit"
proof (induction xs)
  case Nil
  then show ?case by simp
next
  case (Cons x xs)
  show ?case
  proof (cases "xs = []")
    case True
    with Cons.prems show ?thesis by (simp add: in_float_range_def)
  next
    case False
    with Cons have "\<bar>sum_list xs\<bar> < int (length xs) * float_limit" by simp
    moreover have "\<bar>x\<bar> < float_limit" using Cons.prems by (simp add: in_float_range_def)
    ultimately show ?thesis by (simp add: algebra_simps)
  qed
qed

lemma avg_in_range:
  assumes "xs \<noteq> []" and "list_all in_float_range xs"
  shows "\<not> float_overflow (of_int (sum_list xs) / of_int (int (length xs)))"
proof -
  let ?n = "int (length xs)"
  have n: "0 < ?n" using assms(1) by simp
  have "\<bar>sum_list xs\<bar> < ?n * float_limit" using assms by (rule sum_in_range)
  then have "(of_int \<bar>sum_list xs\<bar> :: rat) < of_int (?n * float_limit)"
    by (simp only: of_int_less_iff)
  then have "(of_int \<bar>sum_list xs\<bar> :: rat) / of_int ?n < of_int float_limit"
    using n by (simp add: pos_divide_less_eq mult.commute)
  moreover have "\<bar>(of_int (sum_list xs) :: rat) / of_int ?n\<bar> = of_int \<bar>sum_list xs\<bar> / of_int ?n"
    using n by simp
  ultimately show ?thesis by (simp add: float_overflow_def)
qed

lemma true_div_in_range:
  assumes "xs \<noteq> []" and "list_all in_float_range xs"
  shows "true_div (sum_list xs) (int (length xs))
           = Inr (of_int (sum_list xs) / of_int (int (length xs)))"
  using assms avg_in_range [OF assms] by (simp add: true_div_def)

lemma true_div_user:
  assumes "totals_ok u" and "scores_in_range u" and "history u \<noteq> []"
  shows "true_div (total_score u) (attempts u)
           = Inr (of_int (total_score u) / of_int (attempts u))"
proof -
  have "list_all in_float_range (map score (history u))"
    using assms(2) by (simp add: scores_in_range_def list_all_iff)
  with true_div_in_range [of "map score (history u)"] assms(1,3) show ?thesis
    by (simp add: totals_ok_def)
qed

lemma award_badges_returns:
  assumes "scores_in_range u"
  shows "fst (award_badges u) = Returned"
proof -
  let ?adv = "filter (\<lambda>h. startswith_a (scenario_id h)) (history u)"
  show ?thesis
  proof (cases "5 \<le> length ?adv")
    case True
    then have ne: "map score ?adv \<noteq> []" by auto
    have "list_all in_float_range (map score ?adv)"
      using assms by (simp add: scores_in_range_def list_all_iff)
    from true_div_in_range [OF ne this] True show ?thesis
      by (simp add: award_badges_def Let_def)
  next
    case False
    then show ?thesis by (simp add: award_badges_def Let_def)
  qed
qed

lemma leaderboard_entry_returns:
  assumes "totals_ok u" and "scores_in_range u"
  shows "\<exists>e. leaderboard_entry round2 name u = Inr e"
proof (cases "0 < attempts u")
  case True
  with assms(1) have "history u \<noteq> []" by (auto simp: totals_ok_def)
  from true_div_user [OF assms this] True show ?thesis
    by (simp add: leaderboard_entry_def)
next
  case False
  then show ?thesis by (simp add: leaderboard_entry_def)
qed

lemma row_avg_returns:
  assumes "totals_ok u" and "scores_in_range u"
  shows "\<exists>q. row_avg round2 u = Inr q"
proof (cases "0 < attempts u")
  case True
  with assms(1) have "history u \<noteq> []" by (auto simp: totals_ok_def)
  from true_div_user [OF assms this] True show ?thesis
    by (simp add: row_avg_def)
next
  case False
  then show ?thesis by (simp add: row_avg_def)
qed

lemma collect_returns: "\<forall>x \<in> set xs. \<exists>v. x = Inr v \<Longrightarrow> \<exists>vs. collect xs = Inr vs"
  by (induction xs) auto

lemma user_rows_returns:
  assumes "totals_ok u" and "scores_in_range u"
  shows "\<exists>rs. user_rows round2 (name, u) = Inr rs"
proof -
  obtain q where "row_avg round2 u = Inr q"
    using row_avg_returns [OF assms] by blast
  then have "\<forall>x \<in> set (map (attempt_row round2 name u) (history u)). \<exists>v. x = Inr v"
    by (simp add: attempt_row_def Let_def)
  from collect_returns [OF this] show ?thesis
    by (simp add: user_rows_def)
qed

lemma export_returns:
  assumes "users_ok d" and "range_ok d"
  shows "\<exists>r. export_to_csv round2 d = Inr r"
proof -
  have "\<forall>x \<in> set (map (user_rows round2) (users d)). \<exists>v. x = Inr v"
    using assms user_rows_returns
    by (fastforce simp: users_ok_def range_ok_def list_all_iff)
  from collect_returns [OF this] show ?thesis
    by (auto simp: export_to_csv_def export_rows_def)
qed

lemma auto_backup_returns:
  assumes "users_ok d" and "range_ok d"
  shows "auto_backup_to_csv round2 d = Returned"
  using export_returns [OF assms, of round2]
  by (auto simp: auto_backup_to_csv_def Let_def)

lemma range_ok_lookup:
  "range_ok d \<Longrightarrow> map_of (users d) name = Some u \<Longrightarrow> scores_in_range u"
  using map_of_SomeD [of "users d" name u] by (fastforce simp: range_ok_def list_all_iff)

lemma scores_in_range_new_user: "scores_in_range new_user"
  by (simp add: scores_in_range_def new_user_def)

lemma scores_in_range_stored_user: "range_ok d \<Longrightarrow> scores_in_range (stored_user d name)"
  by (auto simp: stored_user_def range_ok_lookup scores_in_range_new_user split: option.splits)

lemma range_ok_add_user: "range_ok d \<Longrightarrow> range_ok (add_user name d)"
  by (simp add: range_ok_def add_user_def list_all_update scores_in_range_new_user)

lemma range_ok_record_attempt:
  assumes "range_ok d" and "in_float_range sc"
  shows "range_ok (snd (record_attempt round2 now name sid sc ev prompt d))"
proof -
  obtain x where x: "users (snd (record_attempt round2 now name sid sc ev prompt d))
          = AList.update name x (users d)"
      "history x = history (stored_user d name) @ [new_attempt now sid sc ev prompt]"
    using record_attempt_users [of round2 now name sid sc ev prompt d] by blast
  have "scores_in_range x"
    using scores_in_range_stored_user [OF assms(1), of name] assms(2)
    by (simp add: scores_in_range_def x(2) new_attempt_def)
  with assms(1) show ?thesis
    by (simp add: range_ok_def x(1) list_all_update)
qed

lemma record_attempt_returns:
  assumes "users_ok d" and "range_ok d" and "in_float_range sc"
  shows "fst (record_attempt round2 now name sid sc ev prompt d) = Returned"
proof -
  let ?s = "stored_user d name"
  let ?u1 = "append_attempt now sid sc ev prompt ?s"
  have t1: "totals_ok ?u1"
    using totals_ok_stored_user [OF assms(1), of name]
    by (simp add: totals_ok_def counters_append_attempt new_attempt_def)
  have r1: "scores_in_range ?u1"
    using scores_in_range_stored_user [OF assms(2), of name] assms(3)
    by (simp add: scores_in_range_def counters_append_attempt new_attempt_def)
  have h1: "history ?u1 \<noteq> []" by (simp add: counters_append_attempt)
  have div: "true_div (total_score ?u1) (attempts ?u1)
      = Inr (of_int (total_score ?u1) / of_int (attempts ?u1))"
    using t1 r1 h1 by (rule true_div_user)
  have tv: "totals_ok ((update_skill_level avg ?u1)\<lparr>badges := bs\<rparr>)" for avg bs
    using t1 by (simp add: totals_ok_def counters_update_skill_level)
  have rv: "scores_in_range ((update_skill_level avg ?u1)\<lparr>badges := bs\<rparr>)" for avg bs
    using r1 by (simp add: scores_in_range_def counters_update_skill_level)
  have rv': "scores_in_range (update_skill_level avg ?u1)" for avg
    using r1 by (simp add: scores_in_range_def counters_update_skill_level)
  show ?thesis
  proof (cases rule: record_attempt_cases [of now sid sc ev prompt d name round2])
    case (Division e)
    with div show ?thesis by simp
  next
    case (Badges avg e x)
    have "fst (award_badges (update_skill_level avg ?u1)) = Returned"
      using rv' by (rule award_badges_returns)
    with Badges(3) show ?thesis by simp
  next
    case (Entry avg e x)
    have "\<exists>e'. leaderboard_entry round2 name x = Inr e'"
      unfolding Entry(2) by (rule leaderboard_entry_returns [OF tv rv])
    with Entry(4) show ?thesis by simp
  next
    case (Done avg x new_entry d')
    have "snd (record_attempt round2 now name sid sc ev prompt d) = d'"
      by (simp add: Done(6))
    with users_ok_record_attempt [OF assms(1), of round2 now name sid sc ev prompt]
      range_ok_record_attempt [OF assms(2,3), of round2 now name sid ev prompt]
    have "users_ok d'" "range_ok d'" by simp_all
    then show ?thesis by (simp add: Done(6) auto_backup_returns)
  qed
qed

lemma run_calls_return:
  assumes "users_ok d" and "range_ok d" and "list_all call_in_range cs"
  shows "all_returned (fst (run_calls round2 cs d))"
  using assms
proof (induction cs arbitrary: d)
  case Nil
  then show ?case by (simp add: all_returned_def)
next
  case (Cons c cs)
  have c: "fst (run_call round2 c d) = Returned"
    using Cons.prems by (cases c) (simp_all add: call_in_range_def record_attempt_returns)
  have "users_ok (snd (run_call round2 c d))"
    using Cons.prems(1) by (rule users_ok_run_call)
  moreover have "range_ok (snd (run_call round2 c d))"
    using Cons.prems(2,3)
    by (cases c) (simp_all add: call_in_range_def range_ok_add_user range_ok_record_attempt)
  ultimately have "all_returned (fst (run_calls round2 cs (snd (run_call round2 c d))))"
    using Cons.prems(3) by (intro Cons.IH) simp_all
  with c show ?case by (simp add: all_returned_def Let_def)
qed

subsection \<open>One leaderboard entry for each user with an attempt\<close>

lemma active_names_add_user: "active_names (add_user name d) = active_names d"
  by (auto simp: active_names_def map_of_add_user stored_user_def new_user_def
      split: option.splits if_splits)

lemma set_sort_by_avg_desc: "set (sort_by_avg_desc es) = set es"
  by (simp add: sort_by_avg_desc_def)

lemma distinct_usernames_sorted:
  "distinct (map username (sort_by_avg_desc es)) = distinct (map username es)"
  by (simp add: sort_by_avg_desc_def distinct_map)

lemma active_names_update:
  "history v \<noteq> [] \<Longrightarrow>
   active_names \<lparr>users = AList.update name v (users d), leaderboard = lb\<rparr>
     = insert name (active_names d)"
  by (auto simp: active_names_def update_conv')

lemma leaderboard_ok_record_attempt:
  assumes "leaderboard_ok d"
    and "fst (record_attempt round2 now name sid sc ev prompt d) = Returned"
  shows "leaderboard_ok (snd (record_attempt round2 now name sid sc ev prompt d))"
proof -
  let ?d' = "snd (record_attempt round2 now name sid sc ev prompt d)"
  obtain x e where d': "?d' = \<lparr>users = AList.update name x (users d),
               leaderboard = sort_by_avg_desc
                 (filter (\<lambda>e. username e \<noteq> name) (leaderboard d) @ [e])\<rparr>"
    and e: "username e = name" and h: "history x \<noteq> []"
    using record_attempt_returned [OF assms(2)] by blast
  have dist: "distinct (map username (leaderboard ?d'))"
    using assms(1)
    by (auto simp: d' distinct_usernames_sorted e leaderboard_ok_def distinct_map_filter)
  have "set (map username (leaderboard ?d')) = insert name (set (map username (leaderboard d)))"
    by (auto simp: d' set_sort_by_avg_desc e)
  then have "set (map username (leaderboard ?d')) = active_names ?d'"
    using assms(1) by (simp add: leaderboard_ok_def d' active_names_update [OF h])
  with dist show ?thesis by (simp add: leaderboard_ok_def)
qed

lemma leaderboard_ok_add_user: "leaderboard_ok d \<Longrightarrow> leaderboard_ok (add_user name d)"
  by (simp add: leaderboard_ok_def leaderboard_add_user active_names_add_user)

lemma leaderboard_ok_run_call:
  "leaderboard_ok d \<Longrightarrow> fst (run_call round2 c d) = Returned \<Longrightarrow>
   leaderboard_ok (snd (run_call round2 c d))"
  by (cases c) (auto simp: leaderboard_ok_add_user leaderboard_ok_record_attempt)

lemma leaderboard_ok_run_calls:
  "leaderboard_ok d \<Longrightarrow> all_returned (fst (run_calls round2 cs d)) \<Longrightarrow>
   leaderboard_ok (snd (run_calls round2 cs d))"
proof (induction cs arbitrary: d)
  case Nil
  then show ?case by simp
next
  case (Cons c cs)
  from Cons.prems(2) have c: "fst (run_call round2 c d) = Returned"
    and cs: "all_returned (fst (run_calls round2 cs (snd (run_call round2 c d))))"
    by (simp_all add: all_returned_def Let_def)
  from leaderboard_ok_run_call [OF Cons.prems(1) c] cs
  have "leaderboard_ok (snd (run_calls round2 cs (snd (run_call round2 c d))))"
    by (rule Cons.IH)
  then show ?case by (simp add: Let_def)
qed

lemma leaderboard_ok_empty_store: "leaderboard_ok empty_store"
  by (simp add: leaderboard_ok_def empty_store_def active_names_def)

lemma range_ok_empty_store: "range_ok empty_store"
  by (simp add: range_ok_def empty_store_def)

lemma active_names_attempts:
  assumes "users_ok d"
  shows "active_names d = {n. \<exists>u. get_user_stats n d = Some u \<and> 0 < attempts u}"
proof -
  have "history u \<noteq> [] \<longleftrightarrow> 0 < attempts u" if "map_of (users d) n = Some u" for n u
    using users_ok_lookup [OF assms that] by (simp add: totals_ok_def)
  then show ?thesis by (auto simp: active_names_def get_user_stats_def)
qed

text \<open>
  C5 (as the code has it). After a sequence of \<^verbatim>\<open>add_user\<close> and \<^verbatim>\<open>record_attempt\<close> calls
  on the empty store that all returned, the leaderboard has exactly one entry for every
  user with at least one recorded attempt and no other entry: the usernames of its
  entries are distinct, and they are the keys of \<open>users\<close> whose record counts an attempt.
  The calls all return when every score is in the range of the doubles.
\<close>

theorem leaderboard_one_entry_per_active_user:
  "(all_returned (fst (run_calls round2 cs empty_store)) \<longrightarrow>
      distinct (map username (leaderboard (snd (run_calls round2 cs empty_store)))) \<and>
      set (map username (leaderboard (snd (run_calls round2 cs empty_store)))) =
        {n. \<exists>u. get_user_stats n (snd (run_calls round2 cs empty_store)) = Some u \<and>
                 0 < attempts u}) \<and>
   (list_all call_in_range cs \<longrightarrow> all_returned (fst (run_calls round2 cs empty_store)))"
proof (intro conjI impI)
  assume "list_all call_in_range cs"
  with users_ok_empty_store range_ok_empty_store
  show "all_returned (fst (run_calls round2 cs empty_store))"
    by (rule run_calls_return)
next
  assume r: "all_returned (fst (run_calls round2 cs empty_store))"
  let ?d = "snd (run_calls round2 cs empty_store)"
  have ok: "leaderboard_ok ?d"
    using leaderboard_ok_empty_store r by (rule leaderboard_ok_run_calls)
  have u: "users_ok ?d"
    using users_ok_empty_store by (rule users_ok_run_calls)
  show "distinct (map username (leaderboard ?d))"
    using ok by (simp add: leaderboard_ok_def)
  show "set (map username (leaderboard ?d)) =
        {n. \<exists>u. get_user_stats n ?d = Some u \<and> 0 < attempts u}"
    using ok active_names_attempts [OF u] by (simp add: leaderboard_ok_def)
qed

lemma scenario_a_in_range: "list_all call_in_range scenario_a"
  by (simp add: scenario_a_def call_in_range_def in_float_range_def float_limit_def)

lemma scenario_a_leaderboard:
  "map username (leaderboard (snd (run_calls py_round2 scenario_a empty_store))) = [''alice'']"
  by code_simp

theorem leaderboard_one_entry_per_active_user_witness:
  "list_all call_in_range scenario_a \<and>
   all_returned (fst (run_calls py_round2 scenario_a empty_store)) \<and>
   map username (leaderboard (snd (run_calls py_round2 scenario_a empty_store))) = [''alice'']"
  using scenario_a_in_range scenario_a_leaderboard
    leaderboard_one_entry_per_active_user [of py_round2 scenario_a]
  by simp

text \<open>
  A user that \<^verbatim>\<open>add_user\<close> created and that has recorded nothing is a key of \<open>users\<close>
  without an entry: only \<^verbatim>\<open>record_attempt\<close> writes the leaderboard.
\<close>

theorem leaderboard_counterexample:
  "run_calls py_round2 [AddUser ''bob''] empty_store =
     ([Returned], \<lparr>users = [(''bob'', new_user)], leaderboard = []\<rparr>)"
  by (simp add: add_user_def empty_store_def)

subsection \<open>The order of the leaderboard\<close>

lemma insort_key_before:
  "f x \<le> f e \<Longrightarrow> insort_key f x (pre @ e # post) = insort_key f x pre @ e # post"
  by (induction pre) auto

lemma insort_key_after:
  "\<forall>y \<in> set pre. f y < f x \<Longrightarrow> f e < f x \<Longrightarrow>
   insort_key f x (pre @ e # post) = pre @ e # insort_key f x post"
  by (induction pre) auto

lemma sort_key_snoc: "sort_key f (xs @ [e]) = foldr (insort_key f) xs [e]"
  by (simp add: sort_key_def)

lemma foldr_insort_last:
  "\<exists>pre post. foldr (insort_key f) xs [e] = pre @ e # post \<and>
     (\<forall>y \<in> set pre. f y \<le> f e) \<and> (\<forall>y \<in> set post. f e < f y) \<and>
     set (pre @ post) = set xs"
proof (induction xs)
  case Nil
  show ?case by (rule exI [of _ "[]"], rule exI [of _ "[]"]) simp
next
  case (Cons x xs)
  then obtain pre post where IH: "foldr (insort_key f) xs [e] = pre @ e # post"
    "\<forall>y \<in> set pre. f y \<le> f e" "\<forall>y \<in> set post. f e < f y" "set (pre @ post) = set xs"
    by blast
  show ?case
  proof (cases "f x \<le> f e")
    case True
    then have "foldr (insort_key f) (x # xs) [e] = insort_key f x pre @ e # post"
      by (simp add: IH(1) insort_key_before)
    moreover have "\<forall>y \<in> set (insort_key f x pre). f y \<le> f e"
      using True IH(2) by (simp add: set_insort_key)
    moreover have "set (insort_key f x pre @ post) = set (x # xs)"
      using IH(4) by (auto simp: set_insort_key)
    ultimately show ?thesis using IH(3) by blast
  next
    case False
    then have lt: "f e < f x" by simp
    with IH(2) have "\<forall>y \<in> set pre. f y < f x" by auto
    then have "foldr (insort_key f) (x # xs) [e] = pre @ e # insort_key f x post"
      using lt by (simp add: IH(1) insort_key_after)
    moreover have "\<forall>y \<in> set (insort_key f x post). f e < f y"
      using lt IH(3) by (simp add: set_insort_key)
    moreover have "set (pre @ insort_key f x post) = set (x # xs)"
      using IH(4) by (auto simp: set_insort_key)
    ultimately show ?thesis using IH(2) by blast
  qed
qed

lemma sorted_by_avg_desc:
  "sorted_wrt (\<lambda>a b. avg_score b \<le> avg_score a) (sort_by_avg_desc es)"
proof -
  have "sorted (map (\<lambda>e. - avg_score e) (sort_by_avg_desc es))"
    by (simp add: sort_by_avg_desc_def)
  then show ?thesis by (simp add: sorted_map)
qed

lemma sort_by_avg_desc_last:
  "\<exists>pre post. sort_by_avg_desc (es @ [e]) = pre @ e # post \<and>
     (\<forall>y \<in> set post. avg_score y < avg_score e) \<and> set (pre @ post) = set es"
  using foldr_insort_last [of "\<lambda>e. - avg_score e" es e]
  by (simp add: sort_by_avg_desc_def sort_key_snoc) blast

lemma update_leaderboard_sorted:
  assumes "get_user_stats name d = Some u" and "leaderboard_entry round2 name u = Inr e"
  shows "\<exists>pre post.
        update_leaderboard round2 name d = (Returned, d\<lparr>leaderboard := pre @ e # post\<rparr>) \<and>
        sorted_wrt (\<lambda>a b. avg_score b \<le> avg_score a) (pre @ e # post) \<and>
        list_all (\<lambda>y. avg_score y < avg_score e) post \<and>
        set (pre @ post) = set (filter (\<lambda>e. username e \<noteq> name) (leaderboard d))"
proof -
  let ?old = "filter (\<lambda>e. username e \<noteq> name) (leaderboard d)"
  have r: "update_leaderboard round2 name d
      = (Returned, d\<lparr>leaderboard := sort_by_avg_desc (?old @ [e])\<rparr>)"
    using assms by (simp add: update_leaderboard_def get_user_stats_def)
  obtain pre post where p: "sort_by_avg_desc (?old @ [e]) = pre @ e # post"
    "\<forall>y \<in> set post. avg_score y < avg_score e" "set (pre @ post) = set ?old"
    using sort_by_avg_desc_last [of ?old e] by blast
  have "sorted_wrt (\<lambda>a b. avg_score b \<le> avg_score a) (pre @ e # post)"
    using sorted_by_avg_desc [of "?old @ [e]"] by (simp only: p(1))
  moreover have "list_all (\<lambda>y. avg_score y < avg_score e) post"
    using p(2) by (simp add: list_all_iff)
  ultimately show ?thesis using r p(1,3) by auto
qed

lemma small_not_overflow: "\<bar>q\<bar> \<le> 1000000 \<Longrightarrow> \<not> float_overflow q"
  by (simp add: float_overflow_def float_limit_def)

lemma award_badges_first:
  "award_badges \<lparr>total_score = sc, attempts = 1, skill_level = lv, badges = [],
                 history = [a]\<rparr>
   = (Returned, if score a = 100 then [''Perfect Score''] else [])"
  by (simp add: award_badges_def award_def Let_def)

lemma first_attempt:
  assumes "map_of (users d) name = None" and "\<bar>sc\<bar> \<le> 1000000"
  shows "snd (record_attempt round2 now name sid sc ev prompt d) =
     \<lparr>users = AList.update name
        \<lparr>total_score = sc, attempts = 1, skill_level = ''beginner'',
         badges = (if sc = 100 then [''Perfect Score''] else []),
         history = [\<lparr>timestamp = now, scenario_id = sid, score = sc,
                     evaluation = Some ev, user_prompt = Some prompt\<rparr>]\<rparr> (users d),
      leaderboard = sort_by_avg_desc
        (filter (\<lambda>e. username e \<noteq> name) (leaderboard d) @
           [\<lparr>username = name, avg_score = round2 (of_int sc), total_attempts = 1,
             entry_skill_level = ''beginner'',
             entry_badges = (if sc = 100 then 1 else 0)\<rparr>])\<rparr>"
proof -
  have s: "stored_user d name = new_user" using assms(1) by (simp add: stored_user_def)
  have no: "\<not> float_overflow (of_int sc)"
    using assms(2) by (intro small_not_overflow) (simp flip: of_int_abs)
  have u1: "append_attempt now sid sc ev prompt new_user =
      \<lparr>total_score = sc, attempts = 1, skill_level = ''beginner'', badges = [],
       history = [\<lparr>timestamp = now, scenario_id = sid, score = sc,
                     evaluation = Some ev, user_prompt = Some prompt\<rparr>]\<rparr>"
    by (simp add: append_attempt_def new_user_def)
  have div: "true_div sc 1 = Inr (of_int sc)"
    using no by (simp add: true_div_def)
  show ?thesis
  proof (cases rule: record_attempt_cases [of now sid sc ev prompt d name round2])
    case (Division e)
    then show ?thesis by (simp add: s u1 div)
  next
    case (Badges avg e x)
    then show ?thesis by (simp add: s u1 div update_skill_level_def award_badges_first)
  next
    case (Entry avg e x)
    then show ?thesis
      by (simp add: s u1 div update_skill_level_def award_badges_first leaderboard_entry_def)
  next
    case (Done avg x new_entry d')
    then show ?thesis
      by (auto simp: s u1 div update_skill_level_def award_badges_first leaderboard_entry_def)
  qed
qed

lemma scenario_d_general:
  "map (\<lambda>e. (username e, avg_score e))
     (leaderboard (snd
        (run_calls round2
           [RecordAttempt t1 ''x'' s1 80 e1 p1, RecordAttempt t2 ''y'' s2 80 e2 p2]
           empty_store)))
   = [(''x'', round2 80), (''y'', round2 80)]"
  by (simp add: Let_def first_attempt empty_store_def sort_by_avg_desc_def)

lemma tied_store_update:
  "map username (leaderboard (snd (update_leaderboard py_round2 ''y'' tied_store)))
     = [''x'', ''y'']"
  by code_simp

lemma tied_entry:
  "leaderboard_entry py_round2 ''y'' tied_user =
     Inr \<lparr>username = ''y'', avg_score = 80, total_attempts = 1,
          entry_skill_level = ''beginner'', entry_badges = 0\<rparr>"
  by code_simp

text \<open>
  C7. When \<^verbatim>\<open>_update_leaderboard\<close> runs for a user of the store and builds the new entry
  \<open>e\<close>, it returns a leaderboard sorted by descending \<open>avg_score\<close> in which every entry
  behind \<open>e\<close> has a strictly smaller \<open>avg_score\<close>: the entries of the other users that tie
  with \<open>e\<close> stand before it. In particular, when \<open>x\<close> and then \<open>y\<close> record one attempt of
  score 80 each on the empty store, the leaderboard is \<open>x\<close>, then \<open>y\<close>.
\<close>

theorem leaderboard_sorted_ties_by_recency:
  "(get_user_stats name d = Some u \<and> leaderboard_entry round2 name u = Inr e \<longrightarrow>
     (\<exists>pre post.
        update_leaderboard round2 name d = (Returned, d\<lparr>leaderboard := pre @ e # post\<rparr>) \<and>
        sorted_wrt (\<lambda>a b. avg_score b \<le> avg_score a) (pre @ e # post) \<and>
        list_all (\<lambda>y. avg_score y < avg_score e) post \<and>
        set (pre @ post) = set (filter (\<lambda>e. username e \<noteq> name) (leaderboard d)))) \<and>
   map (\<lambda>e. (username e, avg_score e))
     (leaderboard (snd
        (run_calls round2
           [RecordAttempt t1 ''x'' s1 80 e1 p1, RecordAttempt t2 ''y'' s2 80 e2 p2]
           empty_store)))
   = [(''x'', round2 80), (''y'', round2 80)]"
  using update_leaderboard_sorted [of name d u round2 e]
    scenario_d_general [of round2 t1 s1 e1 p1 t2 s2 e2 p2]
  by blast

theorem leaderboard_sorted_ties_by_recency_witness:
  "get_user_stats ''y'' tied_store = Some tied_user \<and>
   leaderboard_entry py_round2 ''y'' tied_user =
     Inr \<lparr>username = ''y'', avg_score = 80, total_attempts = 1,
          entry_skill_level = ''beginner'', entry_badges = 0\<rparr> \<and>
   map username (leaderboard (snd (update_leaderboard py_round2 ''y'' tied_store)))
     = [''x'', ''y'']"
proof -
  have a: "get_user_stats ''y'' tied_store = Some tied_user"
    by (simp add: get_user_stats_def tied_store_def)
  show ?thesis
    using a tied_entry tied_store_update
      leaderboard_sorted_ties_by_recency [of "''y''" tied_store tied_user py_round2]
    by simp
qed

subsection \<open>Scenario A\<close>

lemma scenario_a_general:
  "map_option
     (\<lambda>u. (total_score u, attempts u, skill_level u, ''Perfect Score'' \<in> set (badges u)))
     (get_user_stats ''alice''
        (snd (run_calls round2
           [RecordAttempt t1 ''alice'' ''b1'' 100 e1 p1,
            RecordAttempt t2 ''alice'' ''i1'' 90 e2 p2,
            RecordAttempt t3 ''alice'' ''a1'' 95 e3 p3] empty_store)))
   = Some (285, 3, ''intermediate'', True)"
  by (simp add: record_attempt_def add_user_def empty_store_def new_user_def Let_def
      append_attempt_def true_div_def small_not_overflow update_skill_level_def
      check_and_award_badges_def award_badges_def award_def update_leaderboard_def
      leaderboard_entry_def auto_backup_to_csv_def get_user_stats_def startswith_a_def)

lemma scenario_a_general_in_range:
  "list_all call_in_range
     [RecordAttempt t1 ''alice'' ''b1'' 100 e1 p1,
      RecordAttempt t2 ''alice'' ''i1'' 90 e2 p2,
      RecordAttempt t3 ''alice'' ''a1'' 95 e3 p3]"
  by (simp add: call_in_range_def in_float_range_def float_limit_def)

text \<open>
  C1 (as the code has it). On the empty store, three attempts of \<open>alice\<close> with the scores
  100, 90, 95 on the scenarios \<open>b1\<close>, \<open>i1\<close>, \<open>a1\<close> all return and leave her record with
  \<open>total_score = 285\<close>, \<open>attempts = 3\<close>, \<open>skill_level = "intermediate"\<close> (the average 95
  is at least 70 and there are three attempts) and the badge \<open>Perfect Score\<close>, whatever
  the timestamps, evaluations and prompt texts are.
\<close>

theorem scenario_a_result:
  "map_option
     (\<lambda>u. (total_score u, attempts u, skill_level u, ''Perfect Score'' \<in> set (badges u)))
     (get_user_stats ''alice''
        (snd (run_calls round2
           [RecordAttempt t1 ''alice'' ''b1'' 100 e1 p1,
            RecordAttempt t2 ''alice'' ''i1'' 90 e2 p2,
            RecordAttempt t3 ''alice'' ''a1'' 95 e3 p3] empty_store)))
   = Some (285, 3, ''intermediate'', True) \<and>
   all_returned
     (fst (run_calls round2
        [RecordAttempt t1 ''alice'' ''b1'' 100 e1 p1,
         RecordAttempt t2 ''alice'' ''i1'' 90 e2 p2,
         RecordAttempt t3 ''alice'' ''a1'' 95 e3 p3] empty_store))"
  using scenario_a_general [of round2 t1 e1 p1 t2 e2 p2 t3 e3 p3]
    run_calls_return [OF users_ok_empty_store range_ok_empty_store
      scenario_a_general_in_range [of t1 e1 p1 t2 e2 p2 t3 e3 p3], of round2]
  by (rule conjI)

theorem scenario_a_result_witness:
  "map_option
     (\<lambda>u. (total_score u, attempts u, skill_level u, ''Perfect Score'' \<in> set (badges u)))
     (get_user_stats ''alice'' (snd (run_calls py_round2 scenario_a empty_store)))
   = Some (285, 3, ''intermediate'', True) \<and>
   all_returned (fst (run_calls py_round2 scenario_a empty_store))"
  using scenario_a_result [of py_round2 "''2026-01-01T10:00:00''" sample_evaluation "''p1''"
      "''2026-01-01T10:05:00''" sample_evaluation "''p2''"
      "''2026-01-01T10:10:00''" sample_evaluation "''p3''"]
  by (simp add: scenario_a_def)

text \<open>The claim's \<open>skill_level = "beginner"\<close> fails: the level after the run is \<open>intermediate\<close>.\<close>

theorem scenario_a_counterexample:
  "map_option skill_level
     (get_user_stats ''alice'' (snd (run_calls py_round2 scenario_a empty_store)))
     = Some ''intermediate''"
  by code_simp

subsection \<open>Rows in the order of the sort\<close>

lemma sorted_sort_values:
  "sorted_wrt (\<lambda>a b. row_username a < row_username b \<or>
                 (row_username a = row_username b \<and> row_timestamp a \<le> row_timestamp b))
     (sort_values rows)"
proof -
  have "sorted (map (\<lambda>r. (row_username r, row_timestamp r)) (sort_values rows))"
    by (simp add: sort_values_def)
  then have "sorted_wrt (\<lambda>a b. (row_username a, row_timestamp a) \<le> (row_username b, row_timestamp b))
     (sort_values rows)"
    by (simp add: sorted_map)
  then show ?thesis
    by (rule sorted_wrt_mono_rel [rotated]) auto
qed

lemma export_to_csv_Some:
  "export_to_csv round2 d = Inr (Some rows) \<Longrightarrow>
   \<exists>rs. export_rows round2 d = Inr rs \<and> rs \<noteq> [] \<and> rows = sort_values rs"
  by (auto simp: export_to_csv_def split: sum.splits if_splits)

subsection \<open>The placeholder row\<close>

lemma collect_map_Inr: "collect (map Inr vs) = Inr vs"
  by (induction vs) simp_all

lemma collect_InrD: "collect xs = Inr vs \<Longrightarrow> xs = map Inr vs"
  by (induction xs arbitrary: vs) (auto split: sum.splits)

lemma collect_Inr_iff: "collect xs = Inr vs \<longleftrightarrow> xs = map Inr vs"
  using collect_map_Inr collect_InrD by blast

lemma username_attempt_row:
  "attempt_row round2 name data a = Inr r \<Longrightarrow> row_username r = name"
  by (auto simp: attempt_row_def Let_def split: sum.splits)

lemma username_user_rows:
  assumes "user_rows round2 (k, v) = Inr rs" and "r \<in> set rs"
  shows "row_username r = k"
proof (cases "history v = []")
  case True
  with assms show ?thesis by (auto simp: user_rows_def placeholder_row_def)
next
  case False
  with assms(1) have "map (attempt_row round2 k v) (history v) = map Inr rs"
    by (simp add: user_rows_def collect_Inr_iff)
  then have "set (map (attempt_row round2 k v) (history v)) = set (map Inr rs)"
    by simp
  with assms(2) have "Inr r \<in> attempt_row round2 k v ` set (history v)"
    by auto
  then show ?thesis by (auto dest: username_attempt_row [OF sym])
qed

lemma filter_user_rows:
  assumes "user_rows round2 (k, v) = Inr rs"
  shows "filter (\<lambda>r. row_username r = name) rs = (if k = name then rs else [])"
proof (cases "k = name")
  case True
  then show ?thesis
    using username_user_rows [OF assms] by (simp add: filter_id_conv)
next
  case False
  then show ?thesis
    using username_user_rows [OF assms] by (auto simp: filter_empty_conv)
qed

lemma filter_other_rows:
  "name \<notin> fst ` set al \<Longrightarrow> map (user_rows round2) al = map Inr rss \<Longrightarrow>
   filter (\<lambda>r. row_username r = name) (concat rss) = []"
proof (induction al arbitrary: rss)
  case Nil
  then show ?case by simp
next
  case (Cons kv al)
  obtain k v where kv: "kv = (k, v)" by (cases kv)
  from Cons.prems(2) obtain rs rss' where rss: "rss = rs # rss'"
    and rs: "user_rows round2 (k, v) = Inr rs"
    and rest: "map (user_rows round2) al = map Inr rss'"
    by (cases rss) (auto simp: kv)
  from Cons.prems(1) have "k \<noteq> name" and "name \<notin> fst ` set al" by (auto simp: kv)
  with Cons.IH [OF _ rest] filter_user_rows [OF rs, of name] show ?case
    by (simp add: rss)
qed

lemma filter_export_rows:
  "distinct (map fst al) \<Longrightarrow> map_of al name = Some u \<Longrightarrow>
   map (user_rows round2) al = map Inr rss \<Longrightarrow>
   user_rows round2 (name, u) = Inr (filter (\<lambda>r. row_username r = name) (concat rss))"
proof (induction al arbitrary: rss)
  case Nil
  then show ?case by simp
next
  case (Cons kv al)
  obtain k v where kv: "kv = (k, v)" by (cases kv)
  from Cons.prems(3) obtain rs rss' where rss: "rss = rs # rss'"
    and rs: "user_rows round2 (k, v) = Inr rs"
    and rest: "map (user_rows round2) al = map Inr rss'"
    by (cases rss) (auto simp: kv)
  show ?case
  proof (cases "k = name")
    case True
    with Cons.prems kv have "v = u" and "name \<notin> fst ` set al" by auto
    with True rs filter_user_rows [OF rs, of name] filter_other_rows [OF _ rest, of name]
    show ?thesis by (simp add: rss)
  next
    case False
    with Cons.prems kv have "distinct (map fst al)" "map_of al name = Some u" by auto
    from Cons.IH [OF this rest] False filter_user_rows [OF rs, of name]
    show ?thesis by (simp add: rss)
  qed
qed

lemma filter_sort_values:
  "filter P (sort_values rows) = sort_values (filter P rows)"
  by (simp add: sort_values_def filter_sort)

lemma sort_values_single: "sort_values [r] = [r]"
  by (simp add: sort_values_def)

lemma placeholder_row_fields:
  "row_total_score (placeholder_row name u) = 0 \<and>
   row_clarity_score (placeholder_row name u) = 0 \<and>
   row_specificity_score (placeholder_row name u) = 0 \<and>
   row_structure_score (placeholder_row name u) = 0 \<and>
   row_task_alignment_score (placeholder_row name u) = 0 \<and>
   row_avg_score (placeholder_row name u) = 0 \<and>
   row_cumulative_score (placeholder_row name u) = total_score u \<and>
   row_total_attempts (placeholder_row name u) = attempts u \<and>
   row_timestamp (placeholder_row name u) = [] \<and>
   row_scenario_id (placeholder_row name u) = [] \<and>
   row_user_prompt (placeholder_row name u) = [] \<and>
   row_strengths (placeholder_row name u) = [] \<and>
   row_improvements (placeholder_row name u) = [] \<and>
   row_feedback_summary (placeholder_row name u) = ''No attempts yet''"
  by (simp add: placeholder_row_def)

lemma placeholder_row_once:
  assumes "distinct (map fst (users d))" and "get_user_stats name d = Some u"
    and "history u = []" and "export_to_csv round2 d = Inr r"
  shows "\<exists>rows. r = Some rows \<and>
           filter (\<lambda>r. row_username r = name) rows = [placeholder_row name u]"
proof -
  obtain rs where rs: "export_rows round2 d = Inr rs"
    and r: "r = (if rs \<noteq> [] then Some (sort_values rs) else None)"
    using assms(4) by (auto simp: export_to_csv_def split: sum.splits)
  then obtain rss where rss: "map (user_rows round2) (users d) = map Inr rss"
    and c: "rs = concat rss"
    by (auto simp: export_rows_def collect_Inr_iff split: sum.splits)
  have "user_rows round2 (name, u) = Inr [placeholder_row name u]"
    using assms(3) by (simp add: user_rows_def)
  with filter_export_rows [OF assms(1) assms(2) [unfolded get_user_stats_def] rss]
  have f: "filter (\<lambda>r. row_username r = name) rs = [placeholder_row name u]"
    by (simp add: c)
  then have ne: "rs \<noteq> []" by auto
  have "filter (\<lambda>r. row_username r = name) (sort_values rs) = [placeholder_row name u]"
    by (simp only: filter_sort_values f sort_values_single)
  with ne r show ?thesis by simp
qed

text \<open>
  C4 (as the code has it). For every user of the store whose history is empty, an
  export that returns has exactly one row of that username, the placeholder row: its
  columns \<open>total_score\<close>, the four sub-scores and \<open>avg_score\<close> are zero, \<open>cumulative_score\<close>
  and \<open>total_attempts\<close> repeat the counters of the record, the columns \<open>timestamp\<close>,
  \<open>scenario_id\<close>, \<open>user_prompt\<close>, \<open>strengths\<close> and \<open>improvements\<close> are empty, and
  \<open>feedback_summary\<close> is the text \<open>No attempts yet\<close>.
\<close>

theorem placeholder_row_exported:
  "distinct (map fst (users d)) \<and> get_user_stats name d = Some u \<and> history u = [] \<and>
   export_to_csv round2 d = Inr r \<longrightarrow>
     (\<exists>rows. r = Some rows \<and>
        filter (\<lambda>r. row_username r = name) rows = [placeholder_row name u]) \<and>
     row_total_score (placeholder_row name u) = 0 \<and>
     row_clarity_score (placeholder_row name u) = 0 \<and>
     row_specificity_score (placeholder_row name u) = 0 \<and>
     row_structure_score (placeholder_row name u) = 0 \<and>
     row_task_alignment_score (placeholder_row name u) = 0 \<and>
     row_avg_score (placeholder_row name u) = 0 \<and>
     row_cumulative_score (placeholder_row name u) = total_score u \<and>
     row_total_attempts (placeholder_row name u) = attempts u \<and>
     row_timestamp (placeholder_row name u) = [] \<and>
     row_scenario_id (placeholder_row name u) = [] \<and>
     row_user_prompt (placeholder_row name u) = [] \<and>
     row_strengths (placeholder_row name u) = [] \<and>
     row_improvements (placeholder_row name u) = [] \<and>
     row_feedback_summary (placeholder_row name u) = ''No attempts yet''"
  using placeholder_row_once [of d name u round2 r] placeholder_row_fields [of name u]
  by blast

lemma bob_export:
  "export_to_csv py_round2 (add_user ''bob'' empty_store)
     = Inr (Some [placeholder_row ''bob'' new_user])"
  by code_simp

theorem placeholder_row_exported_witness:
  "distinct (map fst (users (add_user ''bob'' empty_store))) \<and>
   get_user_stats ''bob'' (add_user ''bob'' empty_store) = Some new_user \<and>
   history new_user = [] \<and>
   export_to_csv py_round2 (add_user ''bob'' empty_store)
     = Inr (Some [placeholder_row ''bob'' new_user]) \<and>
   filter (\<lambda>r. row_username r = ''bob'') [placeholder_row ''bob'' new_user]
     = [placeholder_row ''bob'' new_user] \<and>
   row_feedback_summary (placeholder_row ''bob'' new_user) = ''No attempts yet''"
proof -
  have a: "distinct (map fst (users (add_user ''bob'' empty_store)))"
    by (simp add: add_user_def empty_store_def)
  have b: "get_user_stats ''bob'' (add_user ''bob'' empty_store) = Some new_user"
    by (simp add: get_user_stats_def add_user_def empty_store_def)
  have c: "history new_user = []"
    by (simp add: new_user_def)
  show ?thesis
    using a b c bob_export
      placeholder_row_exported [of "add_user ''bob'' empty_store" "''bob''" new_user py_round2
        "Some [placeholder_row ''bob'' new_user]"]
    by simp
qed

text \<open>
  The claim's empty \<open>feedback_summary\<close> fails: the placeholder row of a user that has
  recorded nothing carries the text \<open>No attempts yet\<close>.
\<close>

theorem placeholder_row_counterexample:
  "map (\<lambda>r. (row_username r, row_feedback_summary r))
     (exported (export_to_csv py_round2 (add_user ''bob'' empty_store)))
   = [(''bob'', ''No attempts yet'')]"
  by code_simp

subsection \<open>The order of the exported rows\<close>

lemma timestamp_attempt_row:
  "attempt_row round2 name data a = Inr r \<Longrightarrow> row_timestamp r = timestamp a"
  by (auto simp: attempt_row_def Let_def split: sum.splits)

lemma timestamp_user_rows:
  assumes "user_rows round2 (k, v) = Inr rs" and "r \<in> set rs"
  shows "if history v = [] then rs = [placeholder_row k v]
         else \<exists>a \<in> set (history v). row_timestamp r = timestamp a"
proof (cases "history v = []")
  case True
  with assms show ?thesis by (simp add: user_rows_def)
next
  case False
  with assms(1) have "map (attempt_row round2 k v) (history v) = map Inr rs"
    by (simp add: user_rows_def collect_Inr_iff)
  then have "set (map (attempt_row round2 k v) (history v)) = set (map Inr rs)"
    by simp
  with assms(2) have "Inr r \<in> attempt_row round2 k v ` set (history v)"
    by auto
  with False show ?thesis by (auto dest: timestamp_attempt_row [OF sym])
qed

lemma export_rows_origin:
  assumes "export_rows round2 d = Inr rs" and "r \<in> set rs"
  shows "\<exists>k v rk. (k, v) \<in> set (users d) \<and> user_rows round2 (k, v) = Inr rk \<and> r \<in> set rk"
proof -
  obtain rss where rss: "map (user_rows round2) (users d) = map Inr rss" and c: "rs = concat rss"
    using assms(1) by (auto simp: export_rows_def collect_Inr_iff split: sum.splits)
  from assms(2) c obtain rk where rk: "rk \<in> set rss" "r \<in> set rk" by auto
  from rss have "set (map (user_rows round2) (users d)) = set (map Inr rss)" by simp
  with rk(1) have "Inr rk \<in> user_rows round2 ` set (users d)" by auto
  then obtain kv where "kv \<in> set (users d)" "user_rows round2 kv = Inr rk" by auto
  with rk(2) show ?thesis by (cases kv) auto
qed

lemma timestamps_present_lookup:
  "store_timestamps_present d \<Longrightarrow> (k, v) \<in> set (users d) \<Longrightarrow> timestamps_present v"
  by (fastforce simp: store_timestamps_present_def list_all_iff)

text \<open>Two exported rows of one username, one of them with an empty timestamp, are one row.\<close>

lemma empty_timestamp_alone:
  assumes "distinct (map fst (users d))" and "store_timestamps_present d"
    and "export_rows round2 d = Inr rs"
    and "a \<in> set rs" and "b \<in> set rs"
    and "row_username a = row_username b" and "row_timestamp a = []"
  shows "b = a"
proof -
  obtain k v rk where a: "(k, v) \<in> set (users d)" "user_rows round2 (k, v) = Inr rk" "a \<in> set rk"
    using export_rows_origin [OF assms(3,4)] by blast
  obtain k' v' rk' where b: "(k', v') \<in> set (users d)" "user_rows round2 (k', v') = Inr rk'"
      "b \<in> set rk'"
    using export_rows_origin [OF assms(3,5)] by blast
  have "row_username a = k" using a(2,3) by (rule username_user_rows)
  moreover have "row_username b = k'" using b(2,3) by (rule username_user_rows)
  ultimately have "k' = k" using assms(6) by simp
  with assms(1) a(1) b(1) have "v' = v" by (simp add: eq_key_imp_eq_value)
  have tp: "timestamps_present v"
    using assms(2) a(1) by (rule timestamps_present_lookup)
  have "history v = []"
  proof (rule ccontr)
    assume "history v \<noteq> []"
    with timestamp_user_rows [OF a(2,3)] obtain x where "x \<in> set (history v)"
        "row_timestamp a = timestamp x"
      by auto
    with tp assms(7) show False by (auto simp: timestamps_present_def list_all_iff)
  qed
  with timestamp_user_rows [OF a(2,3)] have rk: "rk = [placeholder_row k v]" by simp
  have "rk' = rk" using a(2) b(2) by (simp add: \<open>k' = k\<close> \<open>v' = v\<close>)
  with rk a(3) b(3) show ?thesis by simp
qed

lemma export_order:
  assumes "distinct (map fst (users d))" and "store_timestamps_present d"
    and "export_to_csv round2 d = Inr (Some rows)"
  shows "sorted_wrt (\<lambda>a b. row_username a < row_username b \<or>
                   (row_username a = row_username b \<and> row_timestamp a \<le> row_timestamp b))
           rows \<and>
         sorted_wrt (\<lambda>a b. row_username a = row_username b \<and> row_timestamp a = [] \<longrightarrow>
                   row_timestamp b = [])
           rows"
proof -
  obtain rs where rs: "export_rows round2 d = Inr rs" "rows = sort_values rs"
    using export_to_csv_Some [OF assms(3)] by blast
  have "sorted_wrt (\<lambda>a b. True) rows" by simp
  then have "sorted_wrt (\<lambda>a b. row_username a = row_username b \<and> row_timestamp a = [] \<longrightarrow>
                   row_timestamp b = []) rows"
  proof (rule sorted_wrt_mono_rel [rotated])
    fix a b
    assume "a \<in> set rows" "b \<in> set rows"
    then have "a \<in> set rs" "b \<in> set rs" by (simp_all add: rs(2) sort_values_def)
    then show "row_username a = row_username b \<and> row_timestamp a = [] \<longrightarrow>
                   row_timestamp b = []"
      using empty_timestamp_alone [OF assms(1,2) rs(1), of a b] by auto
  qed
  with sorted_sort_values [of rs] show ?thesis by (simp add: rs(2))
qed

lemma distinct_add_user:
  "distinct (map fst (users (add_user name d))) = distinct (map fst (users d))"
  by (auto simp: add_user_def update_keys map_of_eq_None_iff)

lemma distinct_record_attempt:
  "distinct (map fst (users (snd (record_attempt round2 now name sid sc ev prompt d))))
     = distinct (map fst (users d))"
  using record_attempt_users [of round2 now name sid sc ev prompt d]
  by (auto simp: update_keys split: if_splits)

lemma distinct_run_calls:
  "distinct (map fst (users (snd (run_calls round2 cs d)))) = distinct (map fst (users d))"
proof (induction cs arbitrary: d)
  case Nil
  show ?case by simp
next
  case (Cons c cs)
  have "distinct (map fst (users (snd (run_call round2 c d)))) = distinct (map fst (users d))"
    by (cases c) (simp_all add: distinct_add_user distinct_record_attempt)
  with Cons show ?case by (simp add: Let_def)
qed

lemma timestamps_present_new_user: "timestamps_present new_user"
  by (simp add: timestamps_present_def new_user_def)

lemma timestamps_present_stored_user:
  "store_timestamps_present d \<Longrightarrow> timestamps_present (stored_user d name)"
proof (cases "map_of (users d) name")
  case None
  then show ?thesis by (simp add: stored_user_def timestamps_present_new_user)
next
  case (Some u)
  assume "store_timestamps_present d"
  with map_of_SomeD [OF Some] have "timestamps_present u"
    by (rule timestamps_present_lookup [rotated])
  with Some show ?thesis by (simp add: stored_user_def)
qed

lemma timestamps_add_user:
  "store_timestamps_present d \<Longrightarrow> store_timestamps_present (add_user name d)"
  by (simp add: store_timestamps_present_def add_user_def list_all_update
      timestamps_present_new_user)

lemma timestamps_record_attempt:
  assumes "store_timestamps_present d" and "now \<noteq> []"
  shows "store_timestamps_present (snd (record_attempt round2 now name sid sc ev prompt d))"
proof -
  obtain x where x: "users (snd (record_attempt round2 now name sid sc ev prompt d))
          = AList.update name x (users d)"
      "history x = history (stored_user d name) @ [new_attempt now sid sc ev prompt]"
    using record_attempt_users [of round2 now name sid sc ev prompt d] by blast
  have "timestamps_present x"
    using timestamps_present_stored_user [OF assms(1), of name] assms(2)
    by (simp add: timestamps_present_def x(2) new_attempt_def)
  with assms(1) show ?thesis
    by (simp add: store_timestamps_present_def x(1) list_all_update)
qed

lemma timestamps_run_calls:
  "store_timestamps_present d \<Longrightarrow> list_all clock_present cs \<Longrightarrow>
   store_timestamps_present (snd (run_calls round2 cs d))"
proof (induction cs arbitrary: d)
  case Nil
  then show ?case by simp
next
  case (Cons c cs)
  have "store_timestamps_present (snd (run_call round2 c d))"
    using Cons.prems
    by (cases c) (simp_all add: clock_present_def timestamps_add_user timestamps_record_attempt)
  with Cons show ?case by (simp add: Let_def)
qed

text \<open>
  C3. Take a store whose users have distinct names, as the keys of a dictionary have,
  and whose attempts all carry a timestamp, or the store a session of calls with
  non-empty clock readings leaves. The rows of an export are ordered by username and,
  within one username, by timestamp; and within one username no row with a timestamp
  stands behind a row with an empty timestamp: the rows with an empty timestamp, the
  placeholder rows, come last among the rows of their username.
\<close>

theorem export_sorted_by_username_timestamp:
  "(distinct (map fst (users d)) \<and> store_timestamps_present d \<and>
    export_to_csv round2 d = Inr (Some rows) \<longrightarrow>
      sorted_wrt (\<lambda>a b. row_username a < row_username b \<or>
                    (row_username a = row_username b \<and> row_timestamp a \<le> row_timestamp b))
        rows \<and>
      sorted_wrt (\<lambda>a b. row_username a = row_username b \<and> row_timestamp a = [] \<longrightarrow>
                    row_timestamp b = [])
        rows) \<and>
   (list_all clock_present cs \<and>
    export_to_csv round2 (snd (run_calls round2 cs empty_store)) = Inr (Some rows') \<longrightarrow>
      sorted_wrt (\<lambda>a b. row_username a < row_username b \<or>
                    (row_username a = row_username b \<and> row_timestamp a \<le> row_timestamp b))
        rows' \<and>
      sorted_wrt (\<lambda>a b. row_username a = row_username b \<and> row_timestamp a = [] \<longrightarrow>
                    row_timestamp b = [])
        rows')"
proof (intro conjI impI)
  assume a: "distinct (map fst (users d)) \<and> store_timestamps_present d \<and>
    export_to_csv round2 d = Inr (Some rows)"
  then have o: "sorted_wrt (\<lambda>a b. row_username a < row_username b \<or>
                   (row_username a = row_username b \<and> row_timestamp a \<le> row_timestamp b))
           rows \<and>
         sorted_wrt (\<lambda>a b. row_username a = row_username b \<and> row_timestamp a = [] \<longrightarrow>
                   row_timestamp b = [])
           rows"
    using export_order [of d round2 rows] by simp
  from o show "sorted_wrt (\<lambda>a b. row_username a < row_username b \<or>
                   (row_username a = row_username b \<and> row_timestamp a \<le> row_timestamp b))
           rows" ..
  from o show "sorted_wrt (\<lambda>a b. row_username a = row_username b \<and> row_timestamp a = [] \<longrightarrow>
                   row_timestamp b = [])
           rows" ..
next
  assume a: "list_all clock_present cs \<and>
    export_to_csv round2 (snd (run_calls round2 cs empty_store)) = Inr (Some rows')"
  let ?d = "snd (run_calls round2 cs empty_store)"
  have "distinct (map fst (users ?d))"
    by (simp add: distinct_run_calls empty_store_def)
  moreover have "store_timestamps_present ?d"
    using a by (intro timestamps_run_calls) (simp_all add: store_timestamps_present_def empty_store_def)
  ultimately have o: "sorted_wrt (\<lambda>a b. row_username a < row_username b \<or>
                   (row_username a = row_username b \<and> row_timestamp a \<le> row_timestamp b))
           rows' \<and>
         sorted_wrt (\<lambda>a b. row_username a = row_username b \<and> row_timestamp a = [] \<longrightarrow>
                   row_timestamp b = [])
           rows'"
    using a export_order [of ?d round2 rows'] by simp
  from o show "sorted_wrt (\<lambda>a b. row_username a < row_username b \<or>
                   (row_username a = row_username b \<and> row_timestamp a \<le> row_timestamp b))
           rows'" ..
  from o show "sorted_wrt (\<lambda>a b. row_username a = row_username b \<and> row_timestamp a = [] \<longrightarrow>
                   row_timestamp b = [])
           rows'" ..
qed

lemma idle_user_export:
  "export_to_csv py_round2 (snd (run_calls py_round2 session_with_idle_user empty_store))
     = Inr (Some (exported (export_to_csv py_round2
         (snd (run_calls py_round2 session_with_idle_user empty_store))))) \<and>
   map (\<lambda>r. (row_username r, row_timestamp r))
     (exported (export_to_csv py_round2
        (snd (run_calls py_round2 session_with_idle_user empty_store))))
   = [(''alice'', ''2026-01-01T10:00:00''), (''alice'', ''2026-01-01T10:05:00''),
      (''alice'', ''2026-01-01T10:10:00''), (''bob'', [])]"
  by code_simp

lemma idle_user_clocks: "list_all clock_present session_with_idle_user"
  by (simp add: session_with_idle_user_def scenario_a_def clock_present_def)

theorem export_sorted_by_username_timestamp_witness:
  "list_all clock_present session_with_idle_user \<and>
   distinct (map fst (users (snd (run_calls py_round2 session_with_idle_user empty_store)))) \<and>
   store_timestamps_present (snd (run_calls py_round2 session_with_idle_user empty_store)) \<and>
   map (\<lambda>r. (row_username r, row_timestamp r))
     (exported (export_to_csv py_round2
        (snd (run_calls py_round2 session_with_idle_user empty_store))))
   = [(''alice'', ''2026-01-01T10:00:00''), (''alice'', ''2026-01-01T10:05:00''),
      (''alice'', ''2026-01-01T10:10:00''), (''bob'', [])] \<and>
   sorted_wrt (\<lambda>a b. row_username a = row_username b \<and> row_timestamp a = [] \<longrightarrow>
                 row_timestamp b = [])
     (exported (export_to_csv py_round2
        (snd (run_calls py_round2 session_with_idle_user empty_store))))"
proof -
  let ?d = "snd (run_calls py_round2 session_with_idle_user empty_store)"
  have d: "distinct (map fst (users ?d))"
    by (simp add: distinct_run_calls empty_store_def)
  have t: "store_timestamps_present ?d"
    using idle_user_clocks
    by (intro timestamps_run_calls) (simp_all add: store_timestamps_present_def empty_store_def)
  show ?thesis
    using d t idle_user_clocks idle_user_export
      export_sorted_by_username_timestamp
        [of ?d py_round2 "exported (export_to_csv py_round2 ?d)" session_with_idle_user
          "exported (export_to_csv py_round2 ?d)"]
    by simp
qed

subsection \<open>Loading and saving\<close>





lemma load_decode_error:
  assumes "fs storage_file = Some text" and "json_load text = JSONDecodeError"
  shows "load_data json_load stamp copy_ok storage_file fs =
     (fresh_data, if copy_ok then fs(backup_name storage_file stamp \<mapsto> text) else fs)"
  using assms by (simp add: load_data_def)

lemma load_invalid_structure:
  assumes "fs storage_file = Some text" and "json_load text = Loaded data"
    and "\<not> valid_structure data"
  shows "load_data json_load stamp copy_ok storage_file fs = (fresh_data, fs)"
  using assms by (simp add: load_data_def)

lemma fresh_text_not_empty_object: "fresh_text \<noteq> ''{}''"
  by (simp add: fresh_text_def)


lemma json_load_sample_empty_object: "json_load_sample ''{}'' = Loaded (JObj [])"
  using fresh_text_not_empty_object by (auto simp: json_load_sample_def)

lemma json_load_sample_not_json: "json_load_sample ''not json'' = JSONDecodeError"
  by (simp add: json_load_sample_def fresh_text_def)



text \<open>
  C2 (as the code has it). Let the storage file exist. When its text is no JSON
  (\<^verbatim>\<open>JSONDecodeError\<close>), \<^verbatim>\<open>_load_data\<close> returns the fresh dictionary and copies the text to
  the backup path; when that copy fails it returns the fresh dictionary and leaves the
  files as they are. When the text parses and the value is not a dictionary with both
  keys \<open>users\<close> and \<open>leaderboard\<close>, it returns the fresh dictionary and writes no backup.
\<close>

theorem load_invalid:
  "fs storage_file = Some text \<longrightarrow>
     (json_load text = JSONDecodeError \<longrightarrow>
        load_data json_load stamp True storage_file fs
          = (fresh_data, fs(backup_name storage_file stamp \<mapsto> text)) \<and>
        load_data json_load stamp False storage_file fs = (fresh_data, fs)) \<and>
     (json_load text = Loaded (JObj kvs) \<and>
        (map_of kvs ''users'' = None \<or> map_of kvs ''leaderboard'' = None) \<longrightarrow>
        load_data json_load stamp copy_ok storage_file fs = (fresh_data, fs)) \<and>
     (json_load text = Loaded data \<and> \<not> valid_structure data \<longrightarrow>
        load_data json_load stamp copy_ok storage_file fs = (fresh_data, fs))"
  by (auto simp: load_decode_error load_invalid_structure valid_structure_def)

theorem load_invalid_witness:
  "[''user_progress.json'' \<mapsto> ''not json''] ''user_progress.json'' = Some ''not json'' \<and>
   json_load_sample ''not json'' = JSONDecodeError \<and>
   load_data json_load_sample ''20260106_120000'' True ''user_progress.json''
     [''user_progress.json'' \<mapsto> ''not json'']
   = (fresh_data,
      [''user_progress.json'' \<mapsto> ''not json'',
       ''user_progress.json.backup_20260106_120000'' \<mapsto> ''not json'']) \<and>
   [''user_progress.json'' \<mapsto> ''{}''] ''user_progress.json'' = Some ''{}'' \<and>
   json_load_sample ''{}'' = Loaded (JObj []) \<and>
   map_of ([] :: (string \<times> json) list) ''users'' = None \<and>
   load_data json_load_sample ''20260106_120000'' True ''user_progress.json''
     [''user_progress.json'' \<mapsto> ''{}'']
   = (fresh_data, [''user_progress.json'' \<mapsto> ''{}''])"
  using
    load_invalid [of "[''user_progress.json'' \<mapsto> ''not json'']" "''user_progress.json''"
      "''not json''" json_load_sample "''20260106_120000''" "[]" True "JObj []"]
    load_invalid [of "[''user_progress.json'' \<mapsto> ''{}'']" "''user_progress.json''"
      "''{}''" json_load_sample "''20260106_120000''" "[]" True "JObj []"]
    json_load_sample_not_json json_load_sample_empty_object
  by (simp add: backup_name_def)

text \<open>
  The claim's backup fails for a file that parses: the storage file holds \<^verbatim>\<open>{}\<close>, an
  object without \<open>users\<close> and \<open>leaderboard\<close>; the fresh dictionary is returned and the file
  system is as before, with no backup file in it.
\<close>

theorem load_invalid_counterexample:
  "load_data json_load_sample ''20260106_120000'' True ''user_progress.json''
     [''user_progress.json'' \<mapsto> ''{}'']
   = (fresh_data, [''user_progress.json'' \<mapsto> ''{}'']) \<and>
   [''user_progress.json'' \<mapsto> ''{}'']
     (backup_name ''user_progress.json'' ''20260106_120000'') = None"
  using json_load_sample_empty_object
  by (simp add: load_data_def valid_structure_def backup_name_def)

end
